theory Spec2Isabelle
  imports Complex_Main "HOL-Library.Multiset"
begin

section \<open>JavaScript containers used by the store\<close>

text \<open>
  \<^verbatim>\<open>Map<number, V>\<close> keeps its entries in insertion order and holds each key at most once.
  It is modelled as an association list in insertion order: \<open>set\<close> on a key that is
  present replaces the value in place, \<open>set\<close> on a new key appends, \<open>delete\<close> drops the
  entry of the key, \<open>values()\<close> and \<open>entries()\<close> enumerate in insertion order.
\<close>

type_synonym 'v jsmap = "(int \<times> 'v) list"

fun mapGet :: "'v jsmap \<Rightarrow> int \<Rightarrow> 'v option" where
  "mapGet [] k = None"
| "mapGet ((k', v) # m) k = (if k' = k then Some v else mapGet m k)"

fun mapSet :: "'v jsmap \<Rightarrow> int \<Rightarrow> 'v \<Rightarrow> 'v jsmap" where
  "mapSet [] k v = [(k, v)]"
| "mapSet ((k', v') # m) k v = (if k' = k then (k, v) # m else (k', v') # mapSet m k v)"

definition mapDelete :: "'v jsmap \<Rightarrow> int \<Rightarrow> 'v jsmap" where
  "mapDelete m k = filter (\<lambda>e. fst e \<noteq> k) m"

definition mapValues :: "'v jsmap \<Rightarrow> 'v list" where
  "mapValues m = map snd m"

definition mapEntries :: "'v jsmap \<Rightarrow> (int \<times> 'v) list" where
  "mapEntries m = m"

text \<open>
  \<^verbatim>\<open>Array.prototype.sort(cmp)\<close> is a stable sort: an element \<open>a\<close> stays before \<open>b\<close>
  unless \<open>cmp(a, b) > 0\<close>. Both comparators of the store are differences of an integer
  key, for which the stable result is unique; it is computed here by insertion from the
  right, which keeps equal keys in their original order.
\<close>

fun insertBy :: "('a \<Rightarrow> 'a \<Rightarrow> int) \<Rightarrow> 'a \<Rightarrow> 'a list \<Rightarrow> 'a list" where
  "insertBy cmp x [] = [x]"
| "insertBy cmp x (y # ys) = (if cmp x y \<le> 0 then x # y # ys else y # insertBy cmp x ys)"

definition arraySort :: "('a \<Rightarrow> 'a \<Rightarrow> int) \<Rightarrow> 'a list \<Rightarrow> 'a list" where
  "arraySort cmp xs = foldr (insertBy cmp) xs []"

section \<open>Entities (shared/schema.ts, shared/types.ts)\<close>

text \<open>
  Ids and the transcript timestamp are JavaScript numbers that only ever hold integers
  (counters, \<^verbatim>\<open>parseInt\<close>, \<^verbatim>\<open>Math.round\<close>); they are \<open>int\<close> here. \<^verbatim>\<open>createdAt\<close> and the
  chat timestamp are ISO strings written by \<^verbatim>\<open>toISOString()\<close> and only read back through
  \<^verbatim>\<open>new Date(s).getTime()\<close>; they are represented by that millisecond count. The
  fields keep their names behind a letter for the entity (\<open>r_\<close>, \<open>t_\<close>, \<open>s_\<close>, \<open>c_\<close>),
  since several entities have an \<open>id\<close>, a \<open>recordingId\<close>, a \<open>content\<close> or a \<open>timestamp\<close>.
\<close>

record recording =
  r_id :: int
  r_title :: string
  r_filename :: string
  r_duration :: int
  r_processed :: bool
  r_transcribed :: bool
  r_createdAt :: int

record transcript =
  t_id :: int
  t_recordingId :: int
  t_speaker :: string
  t_timestamp :: int
  t_text :: string

record summary =
  s_id :: int
  s_recordingId :: int
  s_type :: string
  s_content :: string

record chatMessage =
  c_id :: int
  c_recordingId :: int
  c_role :: string
  c_content :: string
  c_timestamp :: int

text \<open>\<^verbatim>\<open>Partial<Recording>\<close>: every field may be missing.\<close>

record recordingPartial =
  p_id :: "int option"
  p_title :: "string option"
  p_filename :: "string option"
  p_duration :: "int option"
  p_processed :: "bool option"
  p_transcribed :: "bool option"
  p_createdAt :: "int option"

text \<open>The object literal \<^verbatim>\<open>{ ...recording }\<close>: all fields of \<open>recording\<close>, all present.\<close>

definition spread :: "recording \<Rightarrow> recordingPartial" where
  "spread r = \<lparr>p_id = Some (r_id r), p_title = Some (r_title r),
     p_filename = Some (r_filename r), p_duration = Some (r_duration r),
     p_processed = Some (r_processed r), p_transcribed = Some (r_transcribed r),
     p_createdAt = Some (r_createdAt r)\<rparr>"

text \<open>\<^verbatim>\<open>{ ...recording, ...updateData }\<close>: a field of \<open>updateData\<close> wins where it is present.\<close>

definition mergeRecording :: "recording \<Rightarrow> recordingPartial \<Rightarrow> recording" where
  "mergeRecording r u = \<lparr>
     r_id = (case p_id u of Some v \<Rightarrow> v | None \<Rightarrow> r_id r),
     r_title = (case p_title u of Some v \<Rightarrow> v | None \<Rightarrow> r_title r),
     r_filename = (case p_filename u of Some v \<Rightarrow> v | None \<Rightarrow> r_filename r),
     r_duration = (case p_duration u of Some v \<Rightarrow> v | None \<Rightarrow> r_duration r),
     r_processed = (case p_processed u of Some v \<Rightarrow> v | None \<Rightarrow> r_processed r),
     r_transcribed = (case p_transcribed u of Some v \<Rightarrow> v | None \<Rightarrow> r_transcribed r),
     r_createdAt = (case p_createdAt u of Some v \<Rightarrow> v | None \<Rightarrow> r_createdAt r)\<rparr>"

section \<open>MemStorage (server/storage.ts)\<close>

text \<open>
  The four collections the recording lifecycle uses, with their id counters. (The user
  collection of \<^verbatim>\<open>MemStorage\<close> is touched by no route and is left out.) Every method
  is \<^verbatim>\<open>async\<close> but does its whole work before it first yields, so it is a function from
  the store to its result and the new store; a \<^verbatim>\<open>throw\<close> is the result \<open>Inl\<close>. The
  \<open>create\<close> methods take the fields of their insert object as separate arguments.
\<close>

record store =
  recordings :: "recording jsmap"
  transcripts :: "transcript jsmap"
  summaries :: "summary jsmap"
  chatMessages :: "chatMessage jsmap"
  recordingIdCounter :: int
  transcriptIdCounter :: int
  summaryIdCounter :: int
  chatMessageIdCounter :: int

datatype error = RecordingNotFound int | ServiceError string

text \<open>The constructor.\<close>

definition newStore :: store where
  "newStore = \<lparr>recordings = [], transcripts = [], summaries = [], chatMessages = [],
     recordingIdCounter = 1, transcriptIdCounter = 1, summaryIdCounter = 1,
     chatMessageIdCounter = 1\<rparr>"

definition getRecording :: "store \<Rightarrow> int \<Rightarrow> recording option" where
  "getRecording s i = mapGet (recordings s) i"

definition getAllRecordings :: "store \<Rightarrow> recording list" where
  "getAllRecordings s =
     arraySort (\<lambda>a b. r_createdAt b - r_createdAt a) (mapValues (recordings s))"

text \<open>
  \<open>createRecording\<close> takes the three fields of \<^verbatim>\<open>InsertRecording\<close> and the clock reading
  \<open>now\<close> of \<^verbatim>\<open>new Date()\<close>; it returns the new recording and the updated store.
\<close>

definition createRecording :: "string \<Rightarrow> string \<Rightarrow> int \<Rightarrow> int \<Rightarrow> store \<Rightarrow> recording \<times> store" where
  "createRecording title filename duration now s =
     (let i = recordingIdCounter s;
          recording = \<lparr>r_id = i, r_title = title, r_filename = filename,
            r_duration = duration, r_processed = False, r_transcribed = False,
            r_createdAt = now\<rparr>
      in (recording,
          s\<lparr>recordingIdCounter := i + 1, recordings := mapSet (recordings s) i recording\<rparr>))"

definition updateRecording :: "int \<Rightarrow> recordingPartial \<Rightarrow> store \<Rightarrow> error + recording \<times> store" where
  "updateRecording i updateData s =
     (case mapGet (recordings s) i of
        None \<Rightarrow> Inl (RecordingNotFound i)
      | Some recording \<Rightarrow>
          (let updatedRecording = mergeRecording recording updateData
           in Inr (updatedRecording,
                   s\<lparr>recordings := mapSet (recordings s) i updatedRecording\<rparr>)))"

text \<open>
  One cascade loop of \<open>deleteRecording\<close>:
  \<^verbatim>\<open>for (const [k, v] of map.entries()) { if (v.recordingId === id) map.delete(k); }\<close>
  The loop only ever deletes the entry it is visiting, which does not disturb the live
  iterator, so the entries visited are those present when the loop starts.
\<close>

fun cascadeLoop :: "('v \<Rightarrow> int) \<Rightarrow> int \<Rightarrow> (int \<times> 'v) list \<Rightarrow> 'v jsmap \<Rightarrow> 'v jsmap" where
  "cascadeLoop owner i [] m = m"
| "cascadeLoop owner i ((k, v) # rest) m =
     cascadeLoop owner i rest (if owner v = i then mapDelete m k else m)"

definition deleteRecording :: "int \<Rightarrow> store \<Rightarrow> store" where
  "deleteRecording i s =
     (let s1 = s\<lparr>recordings := mapDelete (recordings s) i\<rparr>;
          s2 = s1\<lparr>transcripts :=
                 cascadeLoop t_recordingId i (mapEntries (transcripts s1)) (transcripts s1)\<rparr>;
          s3 = s2\<lparr>summaries :=
                 cascadeLoop s_recordingId i (mapEntries (summaries s2)) (summaries s2)\<rparr>
      in s3\<lparr>chatMessages :=
              cascadeLoop c_recordingId i (mapEntries (chatMessages s3)) (chatMessages s3)\<rparr>)"

definition getTranscript :: "store \<Rightarrow> int \<Rightarrow> transcript option" where
  "getTranscript s i = mapGet (transcripts s) i"

definition getTranscriptByRecordingId :: "store \<Rightarrow> int \<Rightarrow> transcript list" where
  "getTranscriptByRecordingId s recordingId =
     arraySort (\<lambda>a b. t_timestamp a - t_timestamp b)
       (filter (\<lambda>transcript. t_recordingId transcript = recordingId)
          (mapValues (transcripts s)))"

definition createTranscript :: "int \<Rightarrow> string \<Rightarrow> int \<Rightarrow> string \<Rightarrow> store \<Rightarrow> transcript \<times> store" where
  "createTranscript recordingId speaker timestamp txt s =
     (let i = transcriptIdCounter s;
          transcript = \<lparr>t_id = i, t_recordingId = recordingId, t_speaker = speaker,
            t_timestamp = timestamp, t_text = txt\<rparr>
      in (transcript,
          s\<lparr>transcriptIdCounter := i + 1, transcripts := mapSet (transcripts s) i transcript\<rparr>))"

definition getSummary :: "store \<Rightarrow> int \<Rightarrow> summary option" where
  "getSummary s i = mapGet (summaries s) i"

definition getSummaryByType :: "store \<Rightarrow> int \<Rightarrow> string \<Rightarrow> summary option" where
  "getSummaryByType s recordingId ty =
     List.find (\<lambda>summary. s_recordingId summary = recordingId \<and> s_type summary = ty)
       (mapValues (summaries s))"

definition createSummary :: "int \<Rightarrow> string \<Rightarrow> string \<Rightarrow> store \<Rightarrow> summary \<times> store" where
  "createSummary recordingId ty content s =
     (let i = summaryIdCounter s;
          summary = \<lparr>s_id = i, s_recordingId = recordingId, s_type = ty, s_content = content\<rparr>
      in (summary,
          s\<lparr>summaryIdCounter := i + 1, summaries := mapSet (summaries s) i summary\<rparr>))"

definition getChatMessages :: "store \<Rightarrow> int \<Rightarrow> chatMessage list" where
  "getChatMessages s recordingId =
     arraySort (\<lambda>a b. c_timestamp a - c_timestamp b)
       (filter (\<lambda>message. c_recordingId message = recordingId)
          (mapValues (chatMessages s)))"

definition createChatMessage :: "int \<Rightarrow> string \<Rightarrow> string \<Rightarrow> int \<Rightarrow> store \<Rightarrow> chatMessage \<times> store" where
  "createChatMessage recordingId role content now s =
     (let i = chatMessageIdCounter s;
          message = \<lparr>c_id = i, c_recordingId = recordingId, c_role = role,
            c_content = content, c_timestamp = now\<rparr>
      in (message,
          s\<lparr>chatMessageIdCounter := i + 1, chatMessages := mapSet (chatMessages s) i message\<rparr>))"

section \<open>Number formatting and paths\<close>

text \<open>
  \<^verbatim>\<open>Number.prototype.toString()\<close> on an integer, \<^verbatim>\<open>String.prototype.padStart\<close>,
  \<^verbatim>\<open>Array.prototype.join\<close>, the remainder operator \<^verbatim>\<open>%\<close> (the sign follows the
  dividend) and \<^verbatim>\<open>Math.round\<close> (ties go up). Seconds reported by the transcription
  service are JavaScript doubles; they are modelled as reals.
\<close>

fun showNat :: "nat \<Rightarrow> string" where
  "showNat n =
     (if n < 10 then [''0123456789'' ! n]
      else showNat (n div 10) @ [''0123456789'' ! (n mod 10)])"

declare showNat.simps [simp del]

definition numberToString :: "int \<Rightarrow> string" where
  "numberToString i = (if i < 0 then ''-'' @ showNat (nat (- i)) else showNat (nat i))"

definition padStart :: "nat \<Rightarrow> char \<Rightarrow> string \<Rightarrow> string" where
  "padStart n c str = replicate (n - length str) c @ str"

fun joinWith :: "string \<Rightarrow> string list \<Rightarrow> string" where
  "joinWith sep [] = []"
| "joinWith sep [x] = x"
| "joinWith sep (x # y # ys) = x @ sep @ joinWith sep (y # ys)"

definition jsRem :: "int \<Rightarrow> int \<Rightarrow> int" where
  "jsRem a b = (if a < 0 then - ((- a) mod b) else a mod b)"

definition mathRound :: "real \<Rightarrow> int" where
  "mathRound x = \<lfloor>x + 1 / 2\<rfloor>"

definition lineBreak :: "nat \<Rightarrow> string" where
  "lineBreak indent = CHR 0x0A # replicate indent (CHR '' '')"

text \<open>\<^verbatim>\<open>path.resolve("uploads", f)\<close>, relative to the working directory, and \<^verbatim>\<open>path.basename\<close>.\<close>

definition pathResolve :: "string \<Rightarrow> string \<Rightarrow> string" where
  "pathResolve dir f = dir @ ''/'' @ f"

definition pathBasename :: "string \<Rightarrow> string" where
  "pathBasename p = rev (takeWhile (\<lambda>c. c \<noteq> CHR ''/'') (rev p))"

section \<open>The outside world\<close>

text \<open>
  What the transcription service answers (\<^verbatim>\<open>verbose_json\<close>): each field may be missing.
\<close>

record transcriptionSegment =
  seg_start :: real
  seg_text :: string

record transcription =
  tx_duration :: "real option"
  tx_segments :: "transcriptionSegment list option"
  tx_text :: "string option"

text \<open>
  The file system and the two remote calls are parameters: each either throws
  (\<open>Inl\<close>) or returns. \<open>chatCompletion\<close> stands for
  \<^verbatim>\<open>openai.chat.completions.create(...)\<close> followed by \<^verbatim>\<open>.choices[0].message.content\<close>; it
  is given the number of completions requested before, so that the same request may be
  answered differently each time.
\<close>

record env =
  readFile :: "string \<Rightarrow> error + string"
  transcribe :: "string \<Rightarrow> string \<Rightarrow> error + transcription"
  chatCompletion :: "nat \<Rightarrow> (string \<times> string) list \<Rightarrow> error + string"

text \<open>
  The server state: the \<^verbatim>\<open>storage\<close> singleton, together with the list of completion
  requests sent so far (role and content of each message). The server keeps no such
  list; it is recorded here so that the number of requests a route sends can be stated.
\<close>

record world =
  storage :: store
  completionLog :: "(string \<times> string) list list"

text \<open>\<^verbatim>\<open>a || b\<close> on an optional string and on an optional number.\<close>

definition orElseString :: "string option \<Rightarrow> string \<Rightarrow> string" where
  "orElseString a b = (case a of None \<Rightarrow> b | Some str \<Rightarrow> if str = [] then b else str)"

definition orElseNumber :: "real option \<Rightarrow> real \<Rightarrow> real" where
  "orElseNumber a b = (case a of None \<Rightarrow> b | Some x \<Rightarrow> if x = 0 then b else x)"

section \<open>Routes and the pipeline (server/routes.ts)\<close>

datatype body =
    MessageBody string
  | ErrorBody string error
  | StatusBody int string
  | ContentBody string
  | ChatBody string

type_synonym response = "nat \<times> body"

subsection \<open>generateSummary\<close>

definition promptTemplate :: "string \<Rightarrow> string" where
  "promptTemplate ty =
    (if ty = ''general'' then concat
       [''Provide a concise summary of the following conversation transcript. '', lineBreak 6,
        ''Highlight the key topics discussed, decisions made, and action items. '', lineBreak 6,
        ''Format with clear paragraphs and bullet points where appropriate.'']
     else if ty = ''mental-models'' then concat
       [''Analyze the following conversation transcript using mental models. '', lineBreak 6,
        ''Identify the thinking patterns, cognitive biases, decision-making frameworks, and '',
        lineBreak 6,
        ''problem-solving approaches demonstrated. Provide insights on how these mental models '',
        lineBreak 6,
        ''affected the conversation and outcomes.'']
     else if ty = ''1-on-1'' then concat
       [''Summarize this 1-on-1 meeting transcript with a focus on:'', lineBreak 6,
        ''1. Main discussion points'', lineBreak 6,
        ''2. Feedback exchanged'', lineBreak 6,
        ''3. Goals and expectations discussed'', lineBreak 6,
        ''4. Growth opportunities identified'', lineBreak 6,
        ''5. Action items and next steps'', lineBreak 6,
        ''Format this as a structured meeting summary.'']
     else if ty = ''sales'' then concat
       [''Analyze this sales conversation transcript. Focus on:'', lineBreak 6,
        ''1. Customer pain points and needs identified'', lineBreak 6,
        ''2. Objections raised and how they were addressed'', lineBreak 6,
        ''3. Value propositions presented'', lineBreak 6,
        ''4. Next steps agreed upon'', lineBreak 6,
        ''5. Areas for improvement in the sales approach'', lineBreak 6,
        ''Provide actionable insights for sales follow-up.'']
     else if ty = ''timeline'' then concat
       [''Create a chronological timeline breakdown of this conversation. '', lineBreak 6,
        ''Structure it by time segments, highlighting when key topics shifted, important decisions'',
        lineBreak 6,
        ''were made, or new information was introduced. Make it easy to see the conversation flow '',
        lineBreak 6,
        ''and progression of ideas.'']
     else ''Provide a general summary of the following conversation transcript.'')"

definition summaryRequest :: "string \<Rightarrow> string \<Rightarrow> (string \<times> string) list" where
  "summaryRequest ty transcriptText =
     [(''system'', concat
         [''You are an AI assistant that helps analyze conversation transcripts. '', lineBreak 8,
          promptTemplate ty,
          '' Be concise but thorough. Format your response for readability with '', lineBreak 8,
          ''appropriate paragraphs, lists, and spacing.'']),
      (''user'', transcriptText)]"

text \<open>
  \<open>generateSummary\<close>: one completion request, then \<open>createSummary\<close> with its answer. When
  the request throws, nothing is stored.
\<close>

definition generateSummary :: "env \<Rightarrow> int \<Rightarrow> string \<Rightarrow> string \<Rightarrow> world \<Rightarrow> (error + summary) \<times> world" where
  "generateSummary e recordingId ty transcriptText w =
     (let request = summaryRequest ty transcriptText;
          w1 = w\<lparr>completionLog := completionLog w @ [request]\<rparr>
      in case chatCompletion e (length (completionLog w)) request of
           Inl err \<Rightarrow> (Inl err, w1)
         | Inr content \<Rightarrow>
             (let (storedSummary, st) = createSummary recordingId ty content (storage w1)
              in (Inr storedSummary, w1\<lparr>storage := st\<rparr>)))"

subsection \<open>GET /api/recordings/:id/status\<close>

text \<open>
  The handler starts from progress 0 and status "Processing" and overwrites both on each
  of the three branches, so these initial values are never sent. An HTTP answer is the
  status code (200 where the handler sets none) and the JSON body.
\<close>

definition statusProjection :: "recording \<Rightarrow> int \<times> string" where
  "statusProjection recording =
     (if r_transcribed recording then (100, ''Completed'')
      else if r_processed recording then (75, ''Generating insights'')
      else (25, ''Transcribing audio''))"

definition statusHandler :: "int \<Rightarrow> store \<Rightarrow> response" where
  "statusHandler i s =
     (case getRecording s i of
        None \<Rightarrow> (404, MessageBody ''Recording not found'')
      | Some recording \<Rightarrow>
          (let (progress, status) = statusProjection recording
           in (200, StatusBody progress status)))"

subsection \<open>GET /api/recordings/:id/summary/:type\<close>

text \<open>The line of one stored segment, \<^verbatim>\<open>speaker (m:ss): text\<close>, and the joined transcript.\<close>

definition transcriptLine :: "transcript \<Rightarrow> string" where
  "transcriptLine t = concat
     [t_speaker t, '' ('', numberToString (t_timestamp t div 60), '':'',
      padStart 2 (CHR ''0'') (numberToString (jsRem (t_timestamp t) 60)), ''): '', t_text t]"

definition transcriptTextOf :: "transcript list \<Rightarrow> string" where
  "transcriptTextOf ts = joinWith [CHR 0x0A, CHR 0x0A] (map transcriptLine ts)"

definition summaryHandler :: "env \<Rightarrow> int \<Rightarrow> string \<Rightarrow> world \<Rightarrow> response \<times> world" where
  "summaryHandler e i ty w =
     (case getSummaryByType (storage w) i ty of
        Some summary \<Rightarrow> ((200, ContentBody (s_content summary)), w)
      | None \<Rightarrow>
          (case getRecording (storage w) i of
             None \<Rightarrow> ((404, MessageBody ''Recording not found''), w)
           | Some recording \<Rightarrow>
               (let transcript = getTranscriptByRecordingId (storage w) i
                in if length transcript = 0
                   then ((404, MessageBody ''Transcript not found''), w)
                   else (case generateSummary e i ty (transcriptTextOf transcript) w of
                           (Inl err, w') \<Rightarrow> ((500, ErrorBody ''Failed to get summary'' err), w')
                         | (Inr newSummary, w') \<Rightarrow>
                             ((200, ContentBody (s_content newSummary)), w')))))"

subsection \<open>POST /api/recordings/:id/chat\<close>

definition chatSystemPrompt :: string where
  "chatSystemPrompt = concat
     [''You are an AI assistant that helps analyze conversation transcripts. '', lineBreak 12,
      ''Answer questions about the following conversation transcript, providing specific details and insights.'',
      lineBreak 12,
      ''Use a professional, helpful tone. Keep answers concise but thorough. '', lineBreak 12,
      ''Only answer based on information in the transcript, don'', [CHR 0x27],
      ''t make up details.'', lineBreak 12,
      ''Format your response with appropriate paragraphs, lists, and spacing for readability.'']"

text \<open>
  \<open>message\<close> is the \<^verbatim>\<open>message\<close> field of the request body, \<open>None\<close> when the body has none;
  \<^verbatim>\<open>!message\<close> holds for a missing and for an empty string. \<open>now1\<close> and \<open>now2\<close> are the
  clock readings of the two \<open>createChatMessage\<close> calls.
\<close>

definition chatHandler :: "env \<Rightarrow> int \<Rightarrow> string option \<Rightarrow> int \<Rightarrow> int \<Rightarrow> world \<Rightarrow> response \<times> world" where
  "chatHandler e i message now1 now2 w =
     (case message of
        None \<Rightarrow> ((400, MessageBody ''No message provided''), w)
      | Some msg \<Rightarrow>
          if msg = [] then ((400, MessageBody ''No message provided''), w)
          else
            (case getRecording (storage w) i of
               None \<Rightarrow> ((404, MessageBody ''Recording not found''), w)
             | Some recording \<Rightarrow>
                 (let transcript = getTranscriptByRecordingId (storage w) i
                  in if length transcript = 0
                     then ((404, MessageBody ''Transcript not found''), w)
                     else
                       (let st1 = snd (createChatMessage i ''user'' msg now1 (storage w));
                            request = [(''system'', chatSystemPrompt),
                              (''user'', ''Transcript:'' @ [CHR 0x0A, CHR 0x0A] @ transcriptTextOf transcript),
                              (''user'', msg)];
                            w1 = w\<lparr>storage := st1, completionLog := completionLog w @ [request]\<rparr>
                        in case chatCompletion e (length (completionLog w)) request of
                             Inl err \<Rightarrow>
                               ((500, ErrorBody ''Failed to process chat message'' err), w1)
                           | Inr aiResponse \<Rightarrow>
                               ((200, ChatBody aiResponse),
                                w1\<lparr>storage :=
                                  snd (createChatMessage i ''assistant'' aiResponse now2 st1)\<rparr>)))))"

subsection \<open>processRecording\<close>

definition segmentLine :: "transcriptionSegment \<Rightarrow> string" where
  "segmentLine segment = concat
     [''Speaker ('', numberToString \<lfloor>seg_start segment / 60\<rfloor>, '':'',
      padStart 2 (CHR ''0'') (numberToString (jsRem (mathRound (seg_start segment)) 60)),
      ''): '', seg_text segment]"

text \<open>The loop \<^verbatim>\<open>for (const segment of transcription.segments) await storage.createTranscript(...)\<close>.\<close>

fun storeSegments :: "int \<Rightarrow> transcriptionSegment list \<Rightarrow> store \<Rightarrow> store" where
  "storeSegments recordingId [] s = s"
| "storeSegments recordingId (segment # rest) s =
     storeSegments recordingId rest
       (snd (createTranscript recordingId ''Speaker'' (mathRound (seg_start segment))
               (seg_text segment) s))"

text \<open>
  The body of the \<^verbatim>\<open>try\<close> block up to the summary fan-out. It returns the transcript text
  for the summaries, or the exception thrown, together with the state reached at that
  point: what was written before a throw stays written. \<open>recording\<close> is the argument of
  \<open>processRecording\<close>, the object \<open>createRecording\<close> returned; \<open>updateRecording\<close> stores a
  fresh object each time and never changes that argument.
\<close>

definition processRecordingTry :: "env \<Rightarrow> recording \<Rightarrow> world \<Rightarrow> (error + string) \<times> world" where
  "processRecordingTry e recording w =
     (let filePath = pathResolve ''uploads'' (r_filename recording)
      in case readFile e filePath of
           Inl err \<Rightarrow> (Inl err, w)
         | Inr fileBuffer \<Rightarrow>
         (case transcribe e fileBuffer (pathBasename filePath) of
           Inl err \<Rightarrow> (Inl err, w)
         | Inr transcription \<Rightarrow>
         (case updateRecording (r_id recording)
                 (if r_duration recording = 0
                  then (spread recording)\<lparr>
                         p_duration := Some (mathRound (orElseNumber (tx_duration transcription) 0)),
                         p_processed := Some True\<rparr>
                  else (spread recording)\<lparr>p_processed := Some True\<rparr>)
                 (storage w) of
           Inl err \<Rightarrow> (Inl err, w)
         | Inr (_, st1) \<Rightarrow>
         (case tx_segments transcription of
           Some segments \<Rightarrow>
             (let st2 = storeSegments (r_id recording) segments st1
              in case updateRecording (r_id recording)
                      ((spread recording)\<lparr>p_transcribed := Some True\<rparr>) st2 of
                   Inl err \<Rightarrow> (Inl err, w\<lparr>storage := st2\<rparr>)
                 | Inr (_, st3) \<Rightarrow>
                     (Inr (joinWith [CHR 0x0A, CHR 0x0A] (map segmentLine segments)),
                      w\<lparr>storage := st3\<rparr>))
         | None \<Rightarrow>
             (let st2 = snd (createTranscript (r_id recording) ''Speaker'' 0
                          (orElseString (tx_text transcription)
                             ''Unable to transcribe audio content'') st1)
              in case updateRecording (r_id recording)
                      ((spread recording)\<lparr>p_transcribed := Some True\<rparr>) st2 of
                   Inl err \<Rightarrow> (Inl err, w\<lparr>storage := st2\<rparr>)
                 | Inr (_, st3) \<Rightarrow>
                     (Inr (''Speaker (0:00): '' @ orElseString (tx_text transcription)
                             ''Unable to transcribe audio content''),
                      w\<lparr>storage := st3\<rparr>))))))"

text \<open>
  The five \<open>generateSummary\<close> calls started by \<^verbatim>\<open>Promise.all([...])\<close>, whose failures are
  only logged. They are not awaited and finish in no fixed order; here they run one after
  the other in the order of the array. None of them touches a recording or a transcript
  segment.
\<close>

definition summaryTypes :: "string list" where
  "summaryTypes = [''general'', ''mental-models'', ''1-on-1'', ''sales'', ''timeline'']"

definition summaryFanOut :: "env \<Rightarrow> int \<Rightarrow> string \<Rightarrow> world \<Rightarrow> world" where
  "summaryFanOut e recordingId transcriptText w =
     fold (\<lambda>ty w'. snd (generateSummary e recordingId ty transcriptText w')) summaryTypes w"

text \<open>
  \<open>processRecording\<close>: the \<^verbatim>\<open>try\<close> body, then the fan-out; the \<^verbatim>\<open>catch\<close> block marks the
  recording with both flags. The result is \<open>Inr ()\<close> when the promise resolves and \<open>Inl\<close>
  when it rejects, which happens only if the update in the \<^verbatim>\<open>catch\<close> block throws.
\<close>

definition processRecording :: "env \<Rightarrow> recording \<Rightarrow> world \<Rightarrow> (error + unit) \<times> world" where
  "processRecording e recording w =
     (case processRecordingTry e recording w of
        (Inr transcriptText, w1) \<Rightarrow>
          (Inr (), summaryFanOut e (r_id recording) transcriptText w1)
      | (Inl err, w1) \<Rightarrow>
          (case updateRecording (r_id recording)
                  ((spread recording)\<lparr>p_processed := Some True, p_transcribed := Some True\<rparr>)
                  (storage w1) of
             Inl err' \<Rightarrow> (Inl err', w1)
           | Inr (_, st) \<Rightarrow> (Inr (), w1\<lparr>storage := st\<rparr>)))"

text \<open>The recording as the first update stores it.\<close>

definition afterAnalysis :: "recording \<Rightarrow> transcription \<Rightarrow> recording" where
  "afterAnalysis r tx =
     (if r_duration r = 0
      then r\<lparr>r_duration := mathRound (orElseNumber (tx_duration tx) 0), r_processed := True\<rparr>
      else r\<lparr>r_processed := True\<rparr>)"

section \<open>Well-formed stores\<close>

text \<open>
  What every \<^verbatim>\<open>MemStorage\<close> satisfies: a \<^verbatim>\<open>Map\<close> holds a key once, and every key in use
  was handed out by its counter, so it lies below the counter's present value. It holds
  for \<open>newStore\<close> and every operation of the store keeps it (lemmas \<open>store_inv_*\<close>).
\<close>

definition mapInv :: "'v jsmap \<Rightarrow> int \<Rightarrow> bool" where
  "mapInv m counter = (distinct (map fst m) \<and> list_all (\<lambda>k. k < counter) (map fst m))"

definition store_inv :: "store \<Rightarrow> bool" where
  "store_inv s =
     (mapInv (recordings s) (recordingIdCounter s) \<and>
      mapInv (transcripts s) (transcriptIdCounter s) \<and>
      mapInv (summaries s) (summaryIdCounter s) \<and>
      mapInv (chatMessages s) (chatMessageIdCounter s))"

text \<open>No dangling reference: every segment, summary and chat message belongs to a stored recording.\<close>

definition dependentsOwned :: "store \<Rightarrow> bool" where
  "dependentsOwned s =
     (list_all (\<lambda>t. getRecording s (t_recordingId t) \<noteq> None) (mapValues (transcripts s)) \<and>
      list_all (\<lambda>x. getRecording s (s_recordingId x) \<noteq> None) (mapValues (summaries s)) \<and>
      list_all (\<lambda>c. getRecording s (c_recordingId c) \<noteq> None) (mapValues (chatMessages s)))"

text \<open>A small store used to instantiate the theorems below.\<close>

definition exampleStore :: store where
  "exampleStore = \<lparr>
     recordings =
       [(1, \<lparr>r_id = 1, r_title = ''one'', r_filename = ''a.mp3'', r_duration = 5,
              r_processed = True, r_transcribed = True, r_createdAt = 10\<rparr>),
        (2, \<lparr>r_id = 2, r_title = ''two'', r_filename = ''b.mp3'', r_duration = 0,
              r_processed = False, r_transcribed = False, r_createdAt = 20\<rparr>)],
     transcripts =
       [(1, \<lparr>t_id = 1, t_recordingId = 1, t_speaker = ''Speaker'', t_timestamp = 7,
              t_text = ''b''\<rparr>),
        (2, \<lparr>t_id = 2, t_recordingId = 1, t_speaker = ''Speaker'', t_timestamp = 3,
              t_text = ''a''\<rparr>)],
     summaries =
       [(1, \<lparr>s_id = 1, s_recordingId = 1, s_type = ''general'', s_content = ''sum''\<rparr>)],
     chatMessages =
       [(1, \<lparr>c_id = 1, c_recordingId = 1, c_role = ''user'', c_content = ''hi'',
              c_timestamp = 30\<rparr>)],
     recordingIdCounter = 3, transcriptIdCounter = 3, summaryIdCounter = 2,
     chatMessageIdCounter = 2\<rparr>"

definition exampleWorld :: world where
  "exampleWorld = \<lparr>storage = exampleStore, completionLog = []\<rparr>"

definition exampleRecording :: recording where
  "exampleRecording = \<lparr>r_id = 2, r_title = ''two'', r_filename = ''b.mp3'', r_duration = 0,
     r_processed = False, r_transcribed = False, r_createdAt = 20\<rparr>"

text \<open>
  Three outside worlds: one where the transcription service answers with whole text only,
  one where it answers with one segment, one where both remote services throw.
\<close>

definition wholeTextEnv :: "string option \<Rightarrow> env" where
  "wholeTextEnv txt = \<lparr>
     readFile = (\<lambda>p. Inr ''bytes''),
     transcribe = (\<lambda>buf name. Inr \<lparr>tx_duration = Some 12, tx_segments = None, tx_text = txt\<rparr>),
     chatCompletion = (\<lambda>n request. Inr ''generated'')\<rparr>"

definition segmentsEnv :: env where
  "segmentsEnv = \<lparr>
     readFile = (\<lambda>p. Inr ''bytes''),
     transcribe = (\<lambda>buf name. Inr \<lparr>tx_duration = Some 12,
       tx_segments = Some [\<lparr>seg_start = 0, seg_text = ''hello''\<rparr>], tx_text = Some ''hello''\<rparr>),
     chatCompletion = (\<lambda>n request. Inr ''generated'')\<rparr>"

definition failingEnv :: env where
  "failingEnv = \<lparr>
     readFile = (\<lambda>p. Inr ''bytes''),
     transcribe = (\<lambda>buf name. Inl (ServiceError ''transcription failed'')),
     chatCompletion = (\<lambda>n request. Inl (ServiceError ''completion failed''))\<rparr>"

section \<open>Facts about the containers\<close>

lemma arraySort_ascending: "arraySort (\<lambda>a b. f a - f b) xs = sort_key f xs"
proof -
  have ins: "insertBy (\<lambda>a b. f a - f b) x ys = insort_key f x ys" for x ys
    by (induction ys) auto
  show ?thesis
    by (induction xs) (simp_all add: arraySort_def ins)
qed

lemma arraySort_descending: "arraySort (\<lambda>a b. f b - f a) xs = sort_key (\<lambda>x. - f x) xs"
proof -
  have ins: "insertBy (\<lambda>a b. f b - f a) x ys = insort_key (\<lambda>x. - f x) x ys" for x ys
    by (induction ys) auto
  show ?thesis
    by (induction xs) (simp_all add: arraySort_def ins)
qed

lemma arraySort_Nil: "arraySort cmp [] = []"
  by (simp add: arraySort_def)

lemma mapGet_map_of: "mapGet m k = map_of m k"
  by (induction m) auto

lemma mapGet_mapSet: "mapGet (mapSet m k v) k' = (if k' = k then Some v else mapGet m k')"
  by (induction m) auto

lemma mapGet_mapDelete: "mapGet (mapDelete m k) k' = (if k' = k then None else mapGet m k')"
  by (induction m) (auto simp: mapDelete_def)

lemma keys_mapSet:
  "map fst (mapSet m k v) = (if k \<in> set (map fst m) then map fst m else map fst m @ [k])"
  by (induction m) (force+)

lemma mapSet_fresh: "k \<notin> set (map fst m) \<Longrightarrow> mapSet m k v = m @ [(k, v)]"
  by (induction m) auto

lemma mapGet_Some_key: "mapGet m k = Some v \<Longrightarrow> k \<in> set (map fst m)"
  by (induction m) (auto split: if_splits)

lemma mapGet_Some_mem: "mapGet m k = Some v \<Longrightarrow> (k, v) \<in> set m"
  by (induction m) (auto split: if_splits)

lemma mapGet_None_key: "mapGet m k = None \<Longrightarrow> k \<notin> fst ` set m"
  by (induction m) (force split: if_splits)+

lemma find_None_all: "(\<forall>x \<in> set xs. \<not> P x) \<Longrightarrow> List.find P xs = None"
  by (simp add: find_None_iff)

lemma find_filter_implied:
  "(\<And>x. P x \<Longrightarrow> Q x) \<Longrightarrow> List.find P (filter Q xs) = List.find P xs"
  by (induction xs) auto

lemma find_append_new:
  "List.find P xs = None \<Longrightarrow> P x \<Longrightarrow> List.find P (xs @ [x]) = Some x"
  by (induction xs) (auto split: if_splits)

lemma filter_owner_other:
  "j \<noteq> i \<Longrightarrow>
     filter (\<lambda>v. owner v = j) (mapValues (filter (\<lambda>e. owner (snd e) \<noteq> i) m))
       = filter (\<lambda>v. owner v = j) (mapValues m)"
  by (induction m) (auto simp: mapValues_def)

lemma filter_owner_absent:
  "\<forall>v \<in> set (mapValues m). owner v \<noteq> i \<Longrightarrow> filter (\<lambda>e. owner (snd e) \<noteq> i) m = m"
  by (induction m) (auto simp: mapValues_def)

lemma filter_key_absent: "i \<notin> fst ` set m \<Longrightarrow> filter (\<lambda>e. fst e \<noteq> i) m = m"
  by (induction m) auto

text \<open>The cascade loop removes the entries whose key belongs to a visited matching entry.\<close>

lemma cascadeLoop_filter:
  "cascadeLoop owner i es m =
     filter (\<lambda>e. fst e \<notin> set (map fst (filter (\<lambda>x. owner (snd x) = i) es))) m"
proof (induction es arbitrary: m)
  case Nil
  show ?case by simp
next
  case (Cons x es)
  obtain k v where x: "x = (k, v)" by (cases x)
  show ?case
  proof (cases "owner v = i")
    case True
    then show ?thesis
      unfolding x by (simp add: Cons.IH mapDelete_def conj_commute)
  next
    case False
    then show ?thesis
      unfolding x by (simp add: Cons.IH)
  qed
qed

lemma cascadeLoop_self:
  assumes "distinct (map fst m)"
  shows "cascadeLoop owner i (mapEntries m) m = filter (\<lambda>e. owner (snd e) \<noteq> i) m"
proof -
  have "fst e \<notin> set (map fst (filter (\<lambda>x. owner (snd x) = i) m)) \<longleftrightarrow> owner (snd e) \<noteq> i"
    if "e \<in> set m" for e
  proof
    assume "fst e \<notin> set (map fst (filter (\<lambda>x. owner (snd x) = i) m))"
    with that show "owner (snd e) \<noteq> i" by force
  next
    assume ne: "owner (snd e) \<noteq> i"
    show "fst e \<notin> set (map fst (filter (\<lambda>x. owner (snd x) = i) m))"
    proof
      assume "fst e \<in> set (map fst (filter (\<lambda>x. owner (snd x) = i) m))"
      then obtain x where "x \<in> set m" "owner (snd x) = i" "fst x = fst e" by auto
      with assms that have "x = e"
        by (metis eq_key_imp_eq_value prod.collapse)
      with \<open>owner (snd x) = i\<close> ne show False by simp
    qed
  qed
  then show ?thesis
    by (simp add: cascadeLoop_filter mapEntries_def cong: filter_cong)
qed

lemma cascadeLoop_removes:
  "\<forall>e \<in> set (cascadeLoop owner i (mapEntries m) m). owner (snd e) \<noteq> i"
  by (force simp: cascadeLoop_filter mapEntries_def)

lemma cascadeLoop_subset: "set (cascadeLoop owner i es m) \<subseteq> set m"
  by (auto simp: cascadeLoop_filter)

section \<open>The store operations, field by field\<close>

lemma updateRecording_present:
  "mapGet (recordings s) i = Some r0 \<Longrightarrow>
     updateRecording i u s
       = Inr (mergeRecording r0 u, s\<lparr>recordings := mapSet (recordings s) i (mergeRecording r0 u)\<rparr>)"
  by (simp add: updateRecording_def Let_def)

lemma updateRecording_absent:
  "mapGet (recordings s) i = None \<Longrightarrow> updateRecording i u s = Inl (RecordingNotFound i)"
  by (simp add: updateRecording_def)

lemma updateRecording_Inr:
  assumes "updateRecording i u s = Inr (r', s')"
  shows "getRecording s' j = (if j = i then Some r' else getRecording s j)"
    and "transcripts s' = transcripts s" and "summaries s' = summaries s"
    and "chatMessages s' = chatMessages s"
    and "transcriptIdCounter s' = transcriptIdCounter s"
  using assms
  by (auto simp: updateRecording_def Let_def getRecording_def mapGet_mapSet split: option.splits)

lemma mergeRecording_spread_processed:
  "mergeRecording r0 ((spread r)\<lparr>p_processed := Some b\<rparr>) = r\<lparr>r_processed := b\<rparr>"
  by (simp add: mergeRecording_def spread_def)

lemma mergeRecording_spread_duration:
  "mergeRecording r0 ((spread r)\<lparr>p_duration := Some d, p_processed := Some b\<rparr>)
     = r\<lparr>r_duration := d, r_processed := b\<rparr>"
  by (simp add: mergeRecording_def spread_def)

lemma mergeRecording_spread_transcribed:
  "mergeRecording r0 ((spread r)\<lparr>p_transcribed := Some b\<rparr>) = r\<lparr>r_transcribed := b\<rparr>"
  by (simp add: mergeRecording_def spread_def)

lemma mergeRecording_spread_both:
  "mergeRecording r0 ((spread r)\<lparr>p_processed := Some b, p_transcribed := Some c\<rparr>)
     = r\<lparr>r_processed := b, r_transcribed := c\<rparr>"
  by (simp add: mergeRecording_def spread_def)

lemmas mergeRecording_spread = mergeRecording_spread_processed mergeRecording_spread_duration
  mergeRecording_spread_transcribed mergeRecording_spread_both

lemma createTranscript_fields:
  "recordings (snd (createTranscript rid sp ts txt s)) = recordings s"
  "summaries (snd (createTranscript rid sp ts txt s)) = summaries s"
  "chatMessages (snd (createTranscript rid sp ts txt s)) = chatMessages s"
  "transcripts (snd (createTranscript rid sp ts txt s))
     = mapSet (transcripts s) (transcriptIdCounter s)
         \<lparr>t_id = transcriptIdCounter s, t_recordingId = rid, t_speaker = sp,
          t_timestamp = ts, t_text = txt\<rparr>"
  "transcriptIdCounter (snd (createTranscript rid sp ts txt s)) = transcriptIdCounter s + 1"
  by (simp_all add: createTranscript_def Let_def)

lemma createSummary_fields:
  "recordings (snd (createSummary rid ty content s)) = recordings s"
  "transcripts (snd (createSummary rid ty content s)) = transcripts s"
  "chatMessages (snd (createSummary rid ty content s)) = chatMessages s"
  "summaries (snd (createSummary rid ty content s))
     = mapSet (summaries s) (summaryIdCounter s)
         \<lparr>s_id = summaryIdCounter s, s_recordingId = rid, s_type = ty, s_content = content\<rparr>"
  "fst (createSummary rid ty content s)
     = \<lparr>s_id = summaryIdCounter s, s_recordingId = rid, s_type = ty, s_content = content\<rparr>"
  by (simp_all add: createSummary_def Let_def)

lemma storeSegments_fields:
  "recordings (storeSegments rid segs s) = recordings s"
  "summaries (storeSegments rid segs s) = summaries s"
  "chatMessages (storeSegments rid segs s) = chatMessages s"
  by (induction segs arbitrary: s) (simp_all add: createTranscript_fields)

lemma getRecording_storeSegments: "getRecording (storeSegments rid segs s) j = getRecording s j"
  by (simp add: getRecording_def storeSegments_fields)

lemma getRecording_createTranscript:
  "getRecording (snd (createTranscript rid sp ts txt s)) j = getRecording s j"
  by (simp add: getRecording_def createTranscript_fields)

text \<open>What \<open>deleteRecording\<close> leaves in each collection.\<close>

lemma deleteRecording_fields:
  "recordings (deleteRecording i s) = filter (\<lambda>e. fst e \<noteq> i) (recordings s)"
  "transcripts (deleteRecording i s) =
     cascadeLoop t_recordingId i (mapEntries (transcripts s)) (transcripts s)"
  "summaries (deleteRecording i s) =
     cascadeLoop s_recordingId i (mapEntries (summaries s)) (summaries s)"
  "chatMessages (deleteRecording i s) =
     cascadeLoop c_recordingId i (mapEntries (chatMessages s)) (chatMessages s)"
  "recordingIdCounter (deleteRecording i s) = recordingIdCounter s"
  "transcriptIdCounter (deleteRecording i s) = transcriptIdCounter s"
  "summaryIdCounter (deleteRecording i s) = summaryIdCounter s"
  "chatMessageIdCounter (deleteRecording i s) = chatMessageIdCounter s"
  by (simp_all add: deleteRecording_def Let_def mapDelete_def)

section \<open>The store invariant\<close>

text \<open>The constructor establishes \<open>store_inv\<close> and every operation of the store keeps it.\<close>

lemma mapInv_fresh: "mapInv m c \<Longrightarrow> c \<notin> set (map fst m)"
  by (auto simp: mapInv_def list_all_iff)

lemma mapInv_mapSet_counter: "mapInv m c \<Longrightarrow> mapInv (mapSet m c v) (c + 1)"
  by (auto simp: mapInv_def list_all_iff keys_mapSet)

lemma mapInv_mapSet_present: "mapInv m c \<Longrightarrow> k \<in> set (map fst m) \<Longrightarrow> mapInv (mapSet m k v) c"
  by (auto simp: mapInv_def list_all_iff keys_mapSet)

lemma mapInv_filter: "mapInv m c \<Longrightarrow> mapInv (filter P m) c"
  by (auto simp: mapInv_def list_all_iff distinct_map_filter)

lemma store_inv_newStore: "store_inv newStore"
  by (simp add: store_inv_def newStore_def mapInv_def)

lemma store_inv_createRecording:
  "store_inv s \<Longrightarrow> store_inv (snd (createRecording title filename duration now s))"
  by (simp add: store_inv_def createRecording_def Let_def mapInv_mapSet_counter)

lemma store_inv_createTranscript:
  "store_inv s \<Longrightarrow> store_inv (snd (createTranscript recordingId speaker timestamp txt s))"
  by (simp add: store_inv_def createTranscript_def Let_def mapInv_mapSet_counter)

lemma store_inv_createSummary:
  "store_inv s \<Longrightarrow> store_inv (snd (createSummary recordingId ty content s))"
  by (simp add: store_inv_def createSummary_def Let_def mapInv_mapSet_counter)

lemma store_inv_createChatMessage:
  "store_inv s \<Longrightarrow> store_inv (snd (createChatMessage recordingId role content now s))"
  by (simp add: store_inv_def createChatMessage_def Let_def mapInv_mapSet_counter)

lemma store_inv_updateRecording:
  "store_inv s \<Longrightarrow> updateRecording i u s = Inr (r, s') \<Longrightarrow> store_inv s'"
  by (auto simp: store_inv_def updateRecording_def Let_def mapInv_mapSet_present
      dest: mapGet_Some_key split: option.splits)

lemma store_inv_deleteRecording: "store_inv s \<Longrightarrow> store_inv (deleteRecording i s)"
  by (simp add: store_inv_def deleteRecording_fields cascadeLoop_filter mapInv_filter)

lemma store_inv_storeSegments: "store_inv s \<Longrightarrow> store_inv (storeSegments rid segs s)"
  by (induction segs arbitrary: s) (simp_all add: store_inv_createTranscript)

lemma store_inv_exampleStore: "store_inv exampleStore"
  by (simp add: store_inv_def mapInv_def exampleStore_def)

section \<open>The pipeline, step by step\<close>

subsection \<open>generateSummary and the fan-out\<close>

lemma generateSummary_throws:
  "chatCompletion e (length (completionLog w)) (summaryRequest ty txt) = Inl err \<Longrightarrow>
     generateSummary e rid ty txt w
       = (Inl err, w\<lparr>completionLog := completionLog w @ [summaryRequest ty txt]\<rparr>)"
  by (simp add: generateSummary_def Let_def)

lemma generateSummary_returns:
  "chatCompletion e (length (completionLog w)) (summaryRequest ty txt) = Inr content \<Longrightarrow>
     generateSummary e rid ty txt w
       = (Inr (fst (createSummary rid ty content (storage w))),
          \<lparr>storage = snd (createSummary rid ty content (storage w)),
           completionLog = completionLog w @ [summaryRequest ty txt]\<rparr>)"
  by (simp add: generateSummary_def Let_def split_beta)

lemma generateSummary_keeps:
  "recordings (storage (snd (generateSummary e rid ty txt w))) = recordings (storage w)"
  "transcripts (storage (snd (generateSummary e rid ty txt w))) = transcripts (storage w)"
  "chatMessages (storage (snd (generateSummary e rid ty txt w))) = chatMessages (storage w)"
  "completionLog (snd (generateSummary e rid ty txt w))
     = completionLog w @ [summaryRequest ty txt]"
  by (simp_all add: generateSummary_def Let_def split_beta createSummary_fields split: sum.splits)

lemma fold_generateSummary_keeps:
  "recordings (storage (fold (\<lambda>ty w'. snd (generateSummary e rid ty txt w')) tys w))
     = recordings (storage w)"
  "transcripts (storage (fold (\<lambda>ty w'. snd (generateSummary e rid ty txt w')) tys w))
     = transcripts (storage w)"
  "chatMessages (storage (fold (\<lambda>ty w'. snd (generateSummary e rid ty txt w')) tys w))
     = chatMessages (storage w)"
  by (induction tys arbitrary: w) (simp_all add: generateSummary_keeps)

lemma summaryFanOut_keeps:
  "recordings (storage (summaryFanOut e rid txt w)) = recordings (storage w)"
  "transcripts (storage (summaryFanOut e rid txt w)) = transcripts (storage w)"
  "chatMessages (storage (summaryFanOut e rid txt w)) = chatMessages (storage w)"
  by (simp_all add: summaryFanOut_def fold_generateSummary_keeps)

subsection \<open>The try block\<close>

text \<open>
  Whatever the \<^verbatim>\<open>try\<close> block does to the store, it does through \<open>updateRecording\<close> and
  \<open>createTranscript\<close>: a property of stores that these two keep holds of the state the
  block ends in, whether it returns or throws.
\<close>

lemma processRecordingTry_preserves:
  assumes upd: "\<And>i u s r' s'. P s \<Longrightarrow> updateRecording i u s = Inr (r', s') \<Longrightarrow> P s'"
    and crt: "\<And>rid sp ts body s. P s \<Longrightarrow> P (snd (createTranscript rid sp ts body s))"
    and start: "P (storage w)"
  shows "P (storage (snd (processRecordingTry e r w)))"
proof (cases "readFile e (pathResolve ''uploads'' (r_filename r))")
  case (Inl err)
  with start show ?thesis by (simp add: processRecordingTry_def Let_def)
next
  case rf: (Inr buf)
  show ?thesis
  proof (cases "transcribe e buf (pathBasename (pathResolve ''uploads'' (r_filename r)))")
    case (Inl err)
    with start rf show ?thesis by (simp add: processRecordingTry_def Let_def)
  next
    case tr: (Inr tx)
    let ?u1 = "if r_duration r = 0
       then (spread r)\<lparr>p_duration := Some (mathRound (orElseNumber (tx_duration tx) 0)),
                        p_processed := Some True\<rparr>
       else (spread r)\<lparr>p_processed := Some True\<rparr>"
    show ?thesis
    proof (cases "updateRecording (r_id r) ?u1 (storage w)")
      case (Inl err)
      then have "snd (processRecordingTry e r w) = w"
        by (simp only: processRecordingTry_def Let_def rf tr sum.case snd_conv)
      with start show ?thesis by simp
    next
      case (Inr p)
      obtain r1 st1 where p: "p = (r1, st1)" by (cases p)
      note u1 = Inr [unfolded p]
      have p1: "P st1" using start u1 by (rule upd)
      let ?st2 = "case tx_segments tx of
          Some segments \<Rightarrow> storeSegments (r_id r) segments st1
        | None \<Rightarrow> snd (createTranscript (r_id r) ''Speaker'' 0
            (orElseString (tx_text tx) ''Unable to transcribe audio content'') st1)"
      have loop: "P s \<Longrightarrow> P (storeSegments rid segs s)" for rid segs s
        by (induction segs arbitrary: s) (simp_all add: crt)
      have p2: "P ?st2"
        using p1 by (simp add: loop crt split: option.split)
      show ?thesis
      proof (cases "updateRecording (r_id r) ((spread r)\<lparr>p_transcribed := Some True\<rparr>) ?st2")
        case (Inl err)
        then have "snd (processRecordingTry e r w) = w\<lparr>storage := ?st2\<rparr>"
          by (cases "tx_segments tx")
            (simp_all only: processRecordingTry_def Let_def rf tr u1 sum.case prod.case
              option.case snd_conv)
        with p2 show ?thesis by simp
      next
        case (Inr q)
        obtain r3 st3 where q: "q = (r3, st3)" by (cases q)
        note u2 = Inr [unfolded q]
        have "snd (processRecordingTry e r w) = w\<lparr>storage := st3\<rparr>"
          using u2
          by (cases "tx_segments tx")
            (simp_all only: processRecordingTry_def Let_def rf tr u1 sum.case prod.case
              option.case snd_conv)
        moreover have "P st3" using p2 u2 by (rule upd)
        ultimately show ?thesis by simp
      qed
    qed
  qed
qed

lemma processRecordingTry_keeps_recording:
  assumes "getRecording (storage w) j \<noteq> None"
  shows "getRecording (storage (snd (processRecordingTry e r w))) j \<noteq> None"
  using assms
  by (rule processRecordingTry_preserves [rotated 2])
    (simp_all add: updateRecording_Inr(1) getRecording_createTranscript)

lemma store_inv_processRecordingTry:
  "store_inv (storage w) \<Longrightarrow> store_inv (storage (snd (processRecordingTry e r w)))"
  by (rule processRecordingTry_preserves [rotated 2])
    (simp_all add: store_inv_updateRecording store_inv_createTranscript)

lemma processRecordingTry_readFile_throws:
  "readFile e (pathResolve ''uploads'' (r_filename r)) = Inl err \<Longrightarrow>
     processRecordingTry e r w = (Inl err, w)"
  by (simp add: processRecordingTry_def Let_def)

lemma processRecordingTry_transcribe_throws:
  "readFile e (pathResolve ''uploads'' (r_filename r)) = Inr buf \<Longrightarrow>
   transcribe e buf (pathBasename (pathResolve ''uploads'' (r_filename r))) = Inl err \<Longrightarrow>
     processRecordingTry e r w = (Inl err, w)"
  by (simp add: processRecordingTry_def Let_def)

lemma processRecordingTry_fallback:
  assumes rf: "readFile e (pathResolve ''uploads'' (r_filename r)) = Inr buf"
    and tr: "transcribe e buf (pathBasename (pathResolve ''uploads'' (r_filename r))) = Inr tx"
    and seg: "tx_segments tx = None"
    and present: "getRecording (storage w) (r_id r) = Some r0"
  shows "processRecordingTry e r w =
     (Inr (''Speaker (0:00): '' @ orElseString (tx_text tx) ''Unable to transcribe audio content''),
      w\<lparr>storage := (storage w)\<lparr>
         recordings := mapSet (mapSet (recordings (storage w)) (r_id r) (afterAnalysis r tx))
                         (r_id r) (r\<lparr>r_transcribed := True\<rparr>),
         transcripts := mapSet (transcripts (storage w)) (transcriptIdCounter (storage w))
           \<lparr>t_id = transcriptIdCounter (storage w), t_recordingId = r_id r,
            t_speaker = ''Speaker'', t_timestamp = 0,
            t_text = orElseString (tx_text tx) ''Unable to transcribe audio content''\<rparr>,
         transcriptIdCounter := transcriptIdCounter (storage w) + 1\<rparr>\<rparr>)"
proof -
  let ?u1 = "if r_duration r = 0
       then (spread r)\<lparr>p_duration := Some (mathRound (orElseNumber (tx_duration tx) 0)),
                        p_processed := Some True\<rparr>
       else (spread r)\<lparr>p_processed := Some True\<rparr>"
  have m1: "mergeRecording r0 ?u1 = afterAnalysis r tx"
    by (simp add: afterAnalysis_def mergeRecording_spread)
  let ?st1 = "(storage w)\<lparr>recordings := mapSet (recordings (storage w)) (r_id r) (afterAnalysis r tx)\<rparr>"
  have u1: "updateRecording (r_id r) ?u1 (storage w) = Inr (afterAnalysis r tx, ?st1)"
    using present updateRecording_present [of "storage w" "r_id r" r0 ?u1]
    by (simp only: m1 getRecording_def)
  let ?st2 = "snd (createTranscript (r_id r) ''Speaker'' 0
        (orElseString (tx_text tx) ''Unable to transcribe audio content'') ?st1)"
  have g2: "mapGet (recordings ?st2) (r_id r) = Some (afterAnalysis r tx)"
    by (simp add: createTranscript_fields mapGet_mapSet)
  have u2: "updateRecording (r_id r) ((spread r)\<lparr>p_transcribed := Some True\<rparr>) ?st2
      = Inr (r\<lparr>r_transcribed := True\<rparr>,
             ?st2\<lparr>recordings := mapSet (recordings ?st2) (r_id r) (r\<lparr>r_transcribed := True\<rparr>)\<rparr>)"
    using updateRecording_present [OF g2] by (simp add: mergeRecording_spread)
  have "processRecordingTry e r w =
     (Inr (''Speaker (0:00): '' @ orElseString (tx_text tx) ''Unable to transcribe audio content''),
      w\<lparr>storage := ?st2\<lparr>recordings :=
          mapSet (recordings ?st2) (r_id r) (r\<lparr>r_transcribed := True\<rparr>)\<rparr>\<rparr>)"
    by (simp only: processRecordingTry_def Let_def rf tr seg u1 u2 sum.case prod.case option.case)
  then show ?thesis
    by (simp add: createTranscript_def Let_def)
qed

lemma processRecordingTry_segments:
  assumes rf: "readFile e (pathResolve ''uploads'' (r_filename r)) = Inr buf"
    and tr: "transcribe e buf (pathBasename (pathResolve ''uploads'' (r_filename r))) = Inr tx"
    and seg: "tx_segments tx = Some segs"
    and present: "getRecording (storage w) (r_id r) = Some r0"
  shows "processRecordingTry e r w =
     (Inr (joinWith [CHR 0x0A, CHR 0x0A] (map segmentLine segs)),
      w\<lparr>storage :=
          (storeSegments (r_id r) segs
             ((storage w)\<lparr>recordings :=
                 mapSet (recordings (storage w)) (r_id r) (afterAnalysis r tx)\<rparr>))
          \<lparr>recordings :=
             mapSet (mapSet (recordings (storage w)) (r_id r) (afterAnalysis r tx))
               (r_id r) (r\<lparr>r_transcribed := True\<rparr>)\<rparr>\<rparr>)"
proof -
  let ?u1 = "if r_duration r = 0
       then (spread r)\<lparr>p_duration := Some (mathRound (orElseNumber (tx_duration tx) 0)),
                        p_processed := Some True\<rparr>
       else (spread r)\<lparr>p_processed := Some True\<rparr>"
  have m1: "mergeRecording r0 ?u1 = afterAnalysis r tx"
    by (simp add: afterAnalysis_def mergeRecording_spread)
  let ?st1 = "(storage w)\<lparr>recordings := mapSet (recordings (storage w)) (r_id r) (afterAnalysis r tx)\<rparr>"
  have u1: "updateRecording (r_id r) ?u1 (storage w) = Inr (afterAnalysis r tx, ?st1)"
    using present updateRecording_present [of "storage w" "r_id r" r0 ?u1]
    by (simp only: m1 getRecording_def)
  let ?st2 = "storeSegments (r_id r) segs ?st1"
  have g2: "mapGet (recordings ?st2) (r_id r) = Some (afterAnalysis r tx)"
    by (simp add: storeSegments_fields mapGet_mapSet)
  have u2: "updateRecording (r_id r) ((spread r)\<lparr>p_transcribed := Some True\<rparr>) ?st2
      = Inr (r\<lparr>r_transcribed := True\<rparr>,
             ?st2\<lparr>recordings := mapSet (recordings ?st2) (r_id r) (r\<lparr>r_transcribed := True\<rparr>)\<rparr>)"
    using updateRecording_present [OF g2] by (simp add: mergeRecording_spread)
  have "processRecordingTry e r w =
     (Inr (joinWith [CHR 0x0A, CHR 0x0A] (map segmentLine segs)),
      w\<lparr>storage := ?st2\<lparr>recordings :=
          mapSet (recordings ?st2) (r_id r) (r\<lparr>r_transcribed := True\<rparr>)\<rparr>\<rparr>)"
    by (simp only: processRecordingTry_def Let_def rf tr seg u1 u2 sum.case prod.case option.case)
  then show ?thesis
    by (simp add: storeSegments_fields)
qed

text \<open>
  When the \<^verbatim>\<open>try\<close> block completes, the recording left in the store is the argument of
  \<open>processRecording\<close> with \<open>transcribed\<close> set: the second update spreads that argument
  again and so puts back its \<open>processed\<close> and \<open>duration\<close>.
\<close>

lemma processRecording_completes:
  assumes rf: "readFile e (pathResolve ''uploads'' (r_filename r)) = Inr buf"
    and tr: "transcribe e buf (pathBasename (pathResolve ''uploads'' (r_filename r))) = Inr tx"
    and present: "getRecording (storage w) (r_id r) = Some r0"
  shows "fst (processRecording e r w) = Inr ()"
    and "getRecording (storage (snd (processRecording e r w))) (r_id r)
           = Some (r\<lparr>r_transcribed := True\<rparr>)"
proof -
  obtain ttext w1 where t: "processRecordingTry e r w = (Inr ttext, w1)"
    and g: "mapGet (recordings (storage w1)) (r_id r) = Some (r\<lparr>r_transcribed := True\<rparr>)"
  proof (cases "tx_segments tx")
    case None
    from processRecordingTry_fallback [OF rf tr None present] that show ?thesis
      by (simp add: mapGet_mapSet)
  next
    case (Some segs)
    from processRecordingTry_segments [OF rf tr Some present] that show ?thesis
      by (simp add: mapGet_mapSet)
  qed
  show "fst (processRecording e r w) = Inr ()"
    by (simp add: processRecording_def t)
  show "getRecording (storage (snd (processRecording e r w))) (r_id r)
           = Some (r\<lparr>r_transcribed := True\<rparr>)"
    by (simp add: processRecording_def t getRecording_def summaryFanOut_keeps g)
qed

subsection \<open>The invariant along the routes\<close>

lemma store_inv_generateSummary:
  "store_inv (storage w) \<Longrightarrow> store_inv (storage (snd (generateSummary e rid ty body w)))"
  by (simp add: generateSummary_def Let_def split_beta store_inv_createSummary split: sum.splits)

lemma store_inv_summaryFanOut:
  "store_inv (storage w) \<Longrightarrow> store_inv (storage (summaryFanOut e rid body w))"
proof -
  have "store_inv (storage w') \<Longrightarrow>
      store_inv (storage (fold (\<lambda>ty w'. snd (generateSummary e rid ty body w')) tys w'))"
    for tys w'
    by (induction tys arbitrary: w') (simp_all add: store_inv_generateSummary)
  then show "store_inv (storage w) \<Longrightarrow> store_inv (storage (summaryFanOut e rid body w))"
    by (simp add: summaryFanOut_def)
qed

lemma store_inv_processRecording:
  assumes "store_inv (storage w)"
  shows "store_inv (storage (snd (processRecording e r w)))"
proof (cases "processRecordingTry e r w")
  case (Pair res w1)
  from store_inv_processRecordingTry [OF assms, of e r] Pair
  have inv1: "store_inv (storage w1)" by simp
  show ?thesis
  proof (cases res)
    case (Inr ttext)
    with Pair inv1 show ?thesis
      by (simp add: processRecording_def store_inv_summaryFanOut)
  next
    case (Inl err)
    show ?thesis
    proof (cases "updateRecording (r_id r)
        ((spread r)\<lparr>p_processed := Some True, p_transcribed := Some True\<rparr>) (storage w1)")
      case u: (Inl err')
      with Pair Inl inv1 show ?thesis by (simp add: processRecording_def)
    next
      case u: (Inr p)
      obtain r' st where p: "p = (r', st)" by (cases p)
      from store_inv_updateRecording [OF inv1 u [unfolded p]] Pair Inl u p
      show ?thesis by (simp add: processRecording_def)
    qed
  qed
qed

lemma store_inv_summaryHandler:
  "store_inv (storage w) \<Longrightarrow> store_inv (storage (snd (summaryHandler e i ty w)))"
proof -
  assume inv: "store_inv (storage w)"
  have "store_inv (storage w')" if "generateSummary e i ty body w = (res, w')" for body res w'
    using store_inv_generateSummary [OF inv, of e i ty body] that by simp
  with inv show ?thesis
    by (auto simp: summaryHandler_def Let_def split: option.splits prod.splits sum.splits)
qed

lemma store_inv_chatHandler:
  "store_inv (storage w) \<Longrightarrow> store_inv (storage (snd (chatHandler e i message now1 now2 w)))"
  by (simp add: chatHandler_def Let_def store_inv_createChatMessage
      split: option.splits sum.splits)

subsection \<open>The cascade delete on a well-formed store\<close>

lemma deleteRecording_filters:
  assumes "store_inv s"
  shows "transcripts (deleteRecording i s) = filter (\<lambda>e. t_recordingId (snd e) \<noteq> i) (transcripts s)"
    and "summaries (deleteRecording i s) = filter (\<lambda>e. s_recordingId (snd e) \<noteq> i) (summaries s)"
    and "chatMessages (deleteRecording i s) = filter (\<lambda>e. c_recordingId (snd e) \<noteq> i) (chatMessages s)"
  using assms by (simp_all add: deleteRecording_fields store_inv_def mapInv_def cascadeLoop_self)

lemma deleteRecording_absent:
  assumes "store_inv s"
    and "i \<notin> fst ` set (recordings s)"
    and "\<forall>t \<in> set (mapValues (transcripts s)). t_recordingId t \<noteq> i"
    and "\<forall>x \<in> set (mapValues (summaries s)). s_recordingId x \<noteq> i"
    and "\<forall>c \<in> set (mapValues (chatMessages s)). c_recordingId c \<noteq> i"
  shows "deleteRecording i s = s"
proof -
  have "recordings (deleteRecording i s) = recordings s"
    using assms(2) by (simp add: deleteRecording_fields filter_key_absent)
  moreover have "transcripts (deleteRecording i s) = transcripts s"
    using assms(1,3) by (simp add: deleteRecording_filters filter_owner_absent)
  moreover have "summaries (deleteRecording i s) = summaries s"
    using assms(1,4) by (simp add: deleteRecording_filters filter_owner_absent)
  moreover have "chatMessages (deleteRecording i s) = chatMessages s"
    using assms(1,5) by (simp add: deleteRecording_filters filter_owner_absent)
  ultimately show ?thesis
    by (intro store.equality) (simp_all add: deleteRecording_def Let_def)
qed

section \<open>The two flags of a recording\<close>

text \<open>
  Claim C1: at every moment a stored recording with \<open>transcribed\<close> set also has
  \<open>processed\<close> set.

  The pipeline does not keep this. Its first update stores \<open>processed = true\<close>; its
  second update, \<^verbatim>\<open>{ ...recording, transcribed: true }\<close>, spreads the argument of
  \<open>processRecording\<close> again, in which \<open>processed\<close> is still \<open>false\<close>, and so writes
  \<open>false\<close> back (lemma \<open>processRecording_completes\<close>). The \<^verbatim>\<open>catch\<close> block, which passes
  both flags, shows what was meant. Below, a recording is created in an empty store and
  the pipeline runs to completion on it with a transcription of one segment: the stored
  recording ends with \<open>transcribed\<close> set and \<open>processed\<close> clear.
\<close>

theorem processRecording_transcribed_not_processed:
  "fst (createRecording ''memo'' ''memo.webm'' 0 1000 newStore)
     = \<lparr>r_id = 1, r_title = ''memo'', r_filename = ''memo.webm'', r_duration = 0,
        r_processed = False, r_transcribed = False, r_createdAt = 1000\<rparr>
   \<and> fst (processRecording segmentsEnv
          (fst (createRecording ''memo'' ''memo.webm'' 0 1000 newStore))
          \<lparr>storage = snd (createRecording ''memo'' ''memo.webm'' 0 1000 newStore),
           completionLog = []\<rparr>) = Inr ()
   \<and> getRecording (storage (snd (processRecording segmentsEnv
          (fst (createRecording ''memo'' ''memo.webm'' 0 1000 newStore))
          \<lparr>storage = snd (createRecording ''memo'' ''memo.webm'' 0 1000 newStore),
           completionLog = []\<rparr>))) 1
     = Some \<lparr>r_id = 1, r_title = ''memo'', r_filename = ''memo.webm'', r_duration = 0,
          r_processed = False, r_transcribed = True, r_createdAt = 1000\<rparr>"
proof -
  let ?r = "\<lparr>r_id = 1, r_title = ''memo'', r_filename = ''memo.webm'', r_duration = 0,
        r_processed = False, r_transcribed = False, r_createdAt = 1000\<rparr>"
  let ?w = "\<lparr>storage = snd (createRecording ''memo'' ''memo.webm'' 0 1000 newStore),
           completionLog = []\<rparr>"
  have c: "fst (createRecording ''memo'' ''memo.webm'' 0 1000 newStore) = ?r"
    by (simp add: createRecording_def newStore_def Let_def)
  have rf: "readFile segmentsEnv (pathResolve ''uploads'' (r_filename ?r)) = Inr ''bytes''"
    by (simp add: segmentsEnv_def)
  have tr: "transcribe segmentsEnv ''bytes'' (pathBasename (pathResolve ''uploads'' (r_filename ?r)))
      = Inr \<lparr>tx_duration = Some 12,
          tx_segments = Some [\<lparr>seg_start = 0, seg_text = ''hello''\<rparr>], tx_text = Some ''hello''\<rparr>"
    by (simp add: segmentsEnv_def)
  have present: "getRecording (storage ?w) (r_id ?r) = Some ?r"
    by (simp add: createRecording_def newStore_def getRecording_def Let_def)
  from processRecording_completes [OF rf tr present] c show ?thesis
    by simp
qed

section \<open>Status projection\<close>

text \<open>
  Claim C2: for a recording that exists, the status route answers from the two flags
  alone: 100 and "Completed" when \<open>transcribed\<close> is set; 75 and "Generating insights"
  when only \<open>processed\<close> is set; 25 and "Transcribing audio" when neither is; nothing
  else is ever answered, and two recordings with the same flags get the same answer.
\<close>

theorem statusHandler_projection:
  assumes "getRecording s i = Some r"
  shows "(r_transcribed r \<longrightarrow> statusHandler i s = (200, StatusBody 100 ''Completed''))
   \<and> (\<not> r_transcribed r \<and> r_processed r \<longrightarrow>
        statusHandler i s = (200, StatusBody 75 ''Generating insights''))
   \<and> (\<not> r_transcribed r \<and> \<not> r_processed r \<longrightarrow>
        statusHandler i s = (200, StatusBody 25 ''Transcribing audio''))
   \<and> statusHandler i s \<in> {(200, StatusBody 100 ''Completed''),
        (200, StatusBody 75 ''Generating insights''), (200, StatusBody 25 ''Transcribing audio'')}
   \<and> (\<forall>s' i' r'. getRecording s' i' = Some r' \<and> r_processed r' = r_processed r
          \<and> r_transcribed r' = r_transcribed r \<longrightarrow> statusHandler i' s' = statusHandler i s)"
  using assms by (simp add: statusHandler_def statusProjection_def)

text \<open>Recording 2 of the example store has neither flag set.\<close>

theorem statusHandler_projection_witness:
  "getRecording exampleStore 2
     = Some \<lparr>r_id = 2, r_title = ''two'', r_filename = ''b.mp3'', r_duration = 0,
         r_processed = False, r_transcribed = False, r_createdAt = 20\<rparr>
   \<and> statusHandler 2 exampleStore = (200, StatusBody 25 ''Transcribing audio'')"
proof -
  have g: "getRecording exampleStore 2
     = Some \<lparr>r_id = 2, r_title = ''two'', r_filename = ''b.mp3'', r_duration = 0,
         r_processed = False, r_transcribed = False, r_createdAt = 20\<rparr>"
    by (simp add: exampleStore_def getRecording_def)
  from statusHandler_projection [OF g] g show ?thesis by simp
qed

section \<open>Cascade delete\<close>

text \<open>
  Claim C3: after \<open>deleteRecording i\<close>, in any store, the recording \<open>i\<close> is gone and no
  transcript segment, summary or chat message with \<open>recordingId = i\<close> is left, so that
  none of the read operations (\<open>getRecording\<close>, \<open>getTranscript\<close>,
  \<open>getTranscriptByRecordingId\<close>, \<open>getSummary\<close>, \<open>getSummaryByType\<close>, \<open>getChatMessages\<close>)
  returns anything that refers to \<open>i\<close>; where every recording is stored under its own
  id, \<open>getAllRecordings\<close> does not return it either.
\<close>

theorem deleteRecording_cascade:
  "getRecording (deleteRecording i s) i = None
   \<and> i \<notin> fst ` set (recordings (deleteRecording i s))
   \<and> (\<forall>t \<in> set (mapValues (transcripts (deleteRecording i s))). t_recordingId t \<noteq> i)
   \<and> (\<forall>x \<in> set (mapValues (summaries (deleteRecording i s))). s_recordingId x \<noteq> i)
   \<and> (\<forall>c \<in> set (mapValues (chatMessages (deleteRecording i s))). c_recordingId c \<noteq> i)
   \<and> getTranscriptByRecordingId (deleteRecording i s) i = []
   \<and> (\<forall>ty. getSummaryByType (deleteRecording i s) i ty = None)
   \<and> getChatMessages (deleteRecording i s) i = []
   \<and> (\<forall>k t. getTranscript (deleteRecording i s) k = Some t \<longrightarrow> t_recordingId t \<noteq> i)
   \<and> (\<forall>k x. getSummary (deleteRecording i s) k = Some x \<longrightarrow> s_recordingId x \<noteq> i)
   \<and> ((\<forall>e \<in> set (recordings s). r_id (snd e) = fst e) \<longrightarrow>
        (\<forall>r \<in> set (getAllRecordings (deleteRecording i s)). r_id r \<noteq> i))"
proof -
  let ?s = "deleteRecording i s"
  have rec: "getRecording ?s i = None"
    by (simp add: getRecording_def deleteRecording_fields mapGet_mapDelete [unfolded mapDelete_def])
  have key: "i \<notin> fst ` set (recordings ?s)"
    by (auto simp: deleteRecording_fields)
  have tr: "\<forall>t \<in> set (mapValues (transcripts ?s)). t_recordingId t \<noteq> i"
    using cascadeLoop_removes [of t_recordingId i "transcripts s"]
    by (auto simp: mapValues_def deleteRecording_fields)
  have su: "\<forall>x \<in> set (mapValues (summaries ?s)). s_recordingId x \<noteq> i"
    using cascadeLoop_removes [of s_recordingId i "summaries s"]
    by (auto simp: mapValues_def deleteRecording_fields)
  have ch: "\<forall>c \<in> set (mapValues (chatMessages ?s)). c_recordingId c \<noteq> i"
    using cascadeLoop_removes [of c_recordingId i "chatMessages s"]
    by (auto simp: mapValues_def deleteRecording_fields)
  have trl: "getTranscriptByRecordingId ?s i = []"
  proof -
    have "filter (\<lambda>t. t_recordingId t = i) (mapValues (transcripts ?s)) = []"
      using tr by (simp add: filter_empty_conv)
    then show ?thesis by (simp add: getTranscriptByRecordingId_def arraySort_Nil)
  qed
  have sul: "getSummaryByType ?s i ty = None" for ty
    unfolding getSummaryByType_def using su by (intro find_None_all) auto
  have chl: "getChatMessages ?s i = []"
  proof -
    have "filter (\<lambda>c. c_recordingId c = i) (mapValues (chatMessages ?s)) = []"
      using ch by (simp add: filter_empty_conv)
    then show ?thesis by (simp add: getChatMessages_def arraySort_Nil)
  qed
  have trg: "t_recordingId t \<noteq> i" if "getTranscript ?s k = Some t" for k t
  proof -
    from that have "(k, t) \<in> set (transcripts ?s)"
      by (simp add: getTranscript_def mapGet_Some_mem)
    then have "t \<in> set (mapValues (transcripts ?s))"
      by (force simp: mapValues_def)
    with tr show ?thesis by blast
  qed
  have sug: "s_recordingId x \<noteq> i" if "getSummary ?s k = Some x" for k x
  proof -
    from that have "(k, x) \<in> set (summaries ?s)"
      by (simp add: getSummary_def mapGet_Some_mem)
    then have "x \<in> set (mapValues (summaries ?s))"
      by (force simp: mapValues_def)
    with su show ?thesis by blast
  qed
  have all: "\<forall>r \<in> set (getAllRecordings ?s). r_id r \<noteq> i"
    if "\<forall>e \<in> set (recordings s). r_id (snd e) = fst e"
  proof
    fix r assume "r \<in> set (getAllRecordings ?s)"
    then have "r \<in> set (mapValues (recordings ?s))"
      by (simp add: getAllRecordings_def arraySort_descending)
    then obtain k where "(k, r) \<in> set (recordings s)" "k \<noteq> i"
      by (auto simp: mapValues_def deleteRecording_fields)
    with that show "r_id r \<noteq> i" by force
  qed
  from rec key tr su ch trl sul chl trg sug all show ?thesis by blast
qed

text \<open>
  Recording 1 of the example store has two segments, a summary and a chat message;
  deleting it leaves nothing of them.
\<close>

theorem deleteRecording_cascade_witness:
  "list_all (\<lambda>e. r_id (snd e) = fst e) (recordings exampleStore)
   \<and> getRecording exampleStore 1 \<noteq> None
   \<and> length (getTranscriptByRecordingId exampleStore 1) = 2
   \<and> getSummaryByType exampleStore 1 ''general'' \<noteq> None
   \<and> length (getChatMessages exampleStore 1) = 1
   \<and> getRecording (deleteRecording 1 exampleStore) 1 = None
   \<and> getTranscriptByRecordingId (deleteRecording 1 exampleStore) 1 = []
   \<and> getSummaryByType (deleteRecording 1 exampleStore) 1 ''general'' = None
   \<and> getChatMessages (deleteRecording 1 exampleStore) 1 = []
   \<and> list_all (\<lambda>r. r_id r \<noteq> 1) (getAllRecordings (deleteRecording 1 exampleStore))"
proof -
  have pre: "\<forall>e \<in> set (recordings exampleStore). r_id (snd e) = fst e"
    by (simp add: exampleStore_def)
  have before: "getRecording exampleStore 1 \<noteq> None"
    "length (getTranscriptByRecordingId exampleStore 1) = 2"
    "getSummaryByType exampleStore 1 ''general'' \<noteq> None"
    "length (getChatMessages exampleStore 1) = 1"
    by (simp_all add: exampleStore_def getRecording_def getTranscriptByRecordingId_def
        getSummaryByType_def getChatMessages_def mapValues_def arraySort_def)
  from deleteRecording_cascade [of 1 exampleStore] pre before show ?thesis
    unfolding list_all_iff by blast
qed

section \<open>Listing the segments of a recording\<close>

text \<open>
  Claim C4: \<open>getTranscriptByRecordingId s i\<close> returns exactly the stored segments whose
  \<open>recordingId\<close> is \<open>i\<close> (as a multiset), in order of non-decreasing timestamp; and two
  stores holding the same segments, inserted in whatever order, list the same sequence
  of timestamps.
\<close>

theorem getTranscriptByRecordingId_ordered:
  "mset (getTranscriptByRecordingId s i)
     = filter_mset (\<lambda>t. t_recordingId t = i) (mset (mapValues (transcripts s)))
   \<and> sorted_wrt (\<lambda>a b. t_timestamp a \<le> t_timestamp b) (getTranscriptByRecordingId s i)
   \<and> (mset (mapValues (transcripts s)) = mset (mapValues (transcripts s')) \<longrightarrow>
        map t_timestamp (getTranscriptByRecordingId s i)
          = map t_timestamp (getTranscriptByRecordingId s' i))"
proof -
  let ?sel = "\<lambda>st. filter (\<lambda>t. t_recordingId t = i) (mapValues (transcripts st))"
  have eq: "getTranscriptByRecordingId st i = sort_key t_timestamp (?sel st)" for st
    by (simp add: getTranscriptByRecordingId_def arraySort_ascending)
  have m: "mset (getTranscriptByRecordingId s i)
      = filter_mset (\<lambda>t. t_recordingId t = i) (mset (mapValues (transcripts s)))"
    by (simp add: eq)
  have "sorted (map t_timestamp (getTranscriptByRecordingId s i))"
    by (simp add: eq)
  then have srt: "sorted_wrt (\<lambda>a b. t_timestamp a \<le> t_timestamp b) (getTranscriptByRecordingId s i)"
    by (simp add: sorted_map)
  have ord: "map t_timestamp (getTranscriptByRecordingId s i)
      = map t_timestamp (getTranscriptByRecordingId s' i)"
    if "mset (mapValues (transcripts s)) = mset (mapValues (transcripts s'))"
  proof -
    let ?A = "map t_timestamp (getTranscriptByRecordingId s i)"
    let ?B = "map t_timestamp (getTranscriptByRecordingId s' i)"
    have "mset (?sel s) = mset (?sel s')"
      using that by simp
    then have "image_mset t_timestamp (mset (?sel s)) = image_mset t_timestamp (mset (?sel s'))"
      by simp
    then have ms: "mset ?A = mset ?B"
      by (simp add: eq)
    have sA: "sorted ?A" and sB: "sorted ?B"
      by (simp_all add: eq)
    have "sort ?B = ?A"
      using ms sA by (rule properties_for_sort)
    moreover have "sort ?B = ?B"
      using sB by (rule sorted_sort_id)
    ultimately show ?thesis by simp
  qed
  from m srt ord show ?thesis by blast
qed

text \<open>
  The segments of recording 1 were inserted with timestamps 7, then 3; they are listed as
  3, 7, and so is the store with the segments inserted the other way round.
\<close>

theorem getTranscriptByRecordingId_ordered_witness:
  "mset (mapValues (transcripts exampleStore))
     = mset (mapValues (transcripts (exampleStore\<lparr>transcripts := rev (transcripts exampleStore)\<rparr>)))
   \<and> map t_timestamp (getTranscriptByRecordingId exampleStore 1) = [3, 7]
   \<and> map t_timestamp
        (getTranscriptByRecordingId (exampleStore\<lparr>transcripts := rev (transcripts exampleStore)\<rparr>) 1)
      = [3, 7]"
proof -
  let ?s' = "exampleStore\<lparr>transcripts := rev (transcripts exampleStore)\<rparr>"
  have pre: "mset (mapValues (transcripts exampleStore)) = mset (mapValues (transcripts ?s'))"
    by (simp add: mapValues_def rev_map [symmetric])
  have val: "map t_timestamp (getTranscriptByRecordingId exampleStore 1) = [3, 7]"
    by (simp add: exampleStore_def getTranscriptByRecordingId_def mapValues_def arraySort_def)
  from getTranscriptByRecordingId_ordered [of exampleStore 1 ?s'] pre val
  show ?thesis by simp
qed

section \<open>The error path of the pipeline\<close>

text \<open>
  Claim C5: for a recording whose id is in the store, whenever the \<^verbatim>\<open>try\<close> block of the
  pipeline throws (\<open>processRecordingTry\<close> ends in \<open>Inl\<close>, whatever the step), the pipeline
  itself resolves (\<open>Inr ()\<close>) and leaves the recording stored with \<open>processed\<close> and
  \<open>transcribed\<close> both set, the segments being those written before the throw. In
  particular, when the transcription call throws, the segments are those of the start:
  none, if the recording had none.
\<close>

theorem processRecording_catch:
  assumes present: "getRecording (storage w) (r_id recording) \<noteq> None"
  shows "(\<forall>err w1. processRecordingTry e recording w = (Inl err, w1) \<longrightarrow>
            fst (processRecording e recording w) = Inr ()
          \<and> getRecording (storage (snd (processRecording e recording w))) (r_id recording)
              = Some (recording\<lparr>r_processed := True, r_transcribed := True\<rparr>)
          \<and> transcripts (storage (snd (processRecording e recording w)))
              = transcripts (storage w1))
   \<and> (\<forall>buf err. readFile e (pathResolve ''uploads'' (r_filename recording)) = Inr buf
          \<and> transcribe e buf (pathBasename (pathResolve ''uploads'' (r_filename recording)))
              = Inl err \<longrightarrow>
            fst (processRecording e recording w) = Inr ()
          \<and> getRecording (storage (snd (processRecording e recording w))) (r_id recording)
              = Some (recording\<lparr>r_processed := True, r_transcribed := True\<rparr>)
          \<and> transcripts (storage (snd (processRecording e recording w)))
              = transcripts (storage w)
          \<and> (getTranscriptByRecordingId (storage w) (r_id recording) = [] \<longrightarrow>
               getTranscriptByRecordingId (storage (snd (processRecording e recording w)))
                 (r_id recording) = []))"
proof -
  have caught: "fst (processRecording e recording w) = Inr ()
      \<and> getRecording (storage (snd (processRecording e recording w))) (r_id recording)
          = Some (recording\<lparr>r_processed := True, r_transcribed := True\<rparr>)
      \<and> transcripts (storage (snd (processRecording e recording w))) = transcripts (storage w1)"
    if t: "processRecordingTry e recording w = (Inl err, w1)" for err w1
  proof -
    from processRecordingTry_keeps_recording [OF present, of e recording]
    obtain r0 where g: "mapGet (recordings (storage w1)) (r_id recording) = Some r0"
      by (auto simp: t getRecording_def)
    have "processRecording e recording w =
        (Inr (), w1\<lparr>storage := (storage w1)\<lparr>recordings :=
           mapSet (recordings (storage w1)) (r_id recording)
             (recording\<lparr>r_processed := True, r_transcribed := True\<rparr>)\<rparr>\<rparr>)"
      by (simp add: processRecording_def t updateRecording_present [OF g] mergeRecording_spread)
    then show ?thesis
      by (simp add: getRecording_def mapGet_mapSet)
  qed
  have adapter: "fst (processRecording e recording w) = Inr ()
      \<and> getRecording (storage (snd (processRecording e recording w))) (r_id recording)
          = Some (recording\<lparr>r_processed := True, r_transcribed := True\<rparr>)
      \<and> transcripts (storage (snd (processRecording e recording w))) = transcripts (storage w)
      \<and> (getTranscriptByRecordingId (storage w) (r_id recording) = [] \<longrightarrow>
           getTranscriptByRecordingId (storage (snd (processRecording e recording w)))
             (r_id recording) = [])"
    if "readFile e (pathResolve ''uploads'' (r_filename recording)) = Inr buf
        \<and> transcribe e buf (pathBasename (pathResolve ''uploads'' (r_filename recording)))
            = Inl err" for buf err
  proof -
    from that have "processRecordingTry e recording w = (Inl err, w)"
      by (simp add: processRecordingTry_transcribe_throws)
    from caught [OF this] show ?thesis
      by (simp add: getTranscriptByRecordingId_def)
  qed
  from caught adapter show ?thesis by blast
qed

text \<open>Recording 2 of the example store, with a transcription service that throws.\<close>

theorem processRecording_catch_witness:
  "getRecording (storage exampleWorld) (r_id exampleRecording) \<noteq> None
   \<and> transcribe failingEnv ''bytes'' ''b.mp3'' = Inl (ServiceError ''transcription failed'')
   \<and> fst (processRecording failingEnv exampleRecording exampleWorld) = Inr ()
   \<and> getRecording (storage (snd (processRecording failingEnv exampleRecording exampleWorld))) 2
       = Some \<lparr>r_id = 2, r_title = ''two'', r_filename = ''b.mp3'', r_duration = 0,
           r_processed = True, r_transcribed = True, r_createdAt = 20\<rparr>
   \<and> getTranscriptByRecordingId
        (storage (snd (processRecording failingEnv exampleRecording exampleWorld))) 2 = []"
proof -
  have present: "getRecording (storage exampleWorld) (r_id exampleRecording) \<noteq> None"
    by (simp add: exampleWorld_def exampleRecording_def exampleStore_def getRecording_def)
  have rf: "readFile failingEnv (pathResolve ''uploads'' (r_filename exampleRecording)) = Inr ''bytes''"
    by (simp add: failingEnv_def)
  have tr: "transcribe failingEnv ''bytes''
      (pathBasename (pathResolve ''uploads'' (r_filename exampleRecording)))
        = Inl (ServiceError ''transcription failed'')"
    by (simp add: failingEnv_def)
  have tr': "transcribe failingEnv ''bytes'' ''b.mp3'' = Inl (ServiceError ''transcription failed'')"
    by (simp add: failingEnv_def)
  have none: "getTranscriptByRecordingId (storage exampleWorld) (r_id exampleRecording) = []"
    by (simp add: exampleWorld_def exampleRecording_def exampleStore_def
        getTranscriptByRecordingId_def mapValues_def arraySort_def)
  from processRecording_catch [OF present, of failingEnv] rf tr
  have "fst (processRecording failingEnv exampleRecording exampleWorld) = Inr ()
      \<and> getRecording (storage (snd (processRecording failingEnv exampleRecording exampleWorld)))
           (r_id exampleRecording)
          = Some (exampleRecording\<lparr>r_processed := True, r_transcribed := True\<rparr>)
      \<and> transcripts (storage (snd (processRecording failingEnv exampleRecording exampleWorld)))
          = transcripts (storage exampleWorld)
      \<and> (getTranscriptByRecordingId (storage exampleWorld) (r_id exampleRecording) = [] \<longrightarrow>
           getTranscriptByRecordingId
             (storage (snd (processRecording failingEnv exampleRecording exampleWorld)))
             (r_id exampleRecording) = [])"
    by blast
  with none present tr' show ?thesis
    by (simp add: exampleRecording_def)
qed

section \<open>The whole-text fallback\<close>

text \<open>
  Claim C6, amended: in a well-formed store, a pipeline run on a stored recording whose
  transcription carries no segment list resolves and adds exactly one transcript
  segment, appended under the next transcript id: recording id of the recording, speaker
  "Speaker", timestamp 0, and as text the whole text of the transcription, or
  "Unable to transcribe audio content" when that text is missing or empty.
\<close>

theorem processRecording_fallback_segment:
  assumes inv: "store_inv (storage w)"
    and present: "getRecording (storage w) (r_id recording) \<noteq> None"
    and rf: "readFile e (pathResolve ''uploads'' (r_filename recording)) = Inr buf"
    and tr: "transcribe e buf (pathBasename (pathResolve ''uploads'' (r_filename recording)))
               = Inr tx"
    and seg: "tx_segments tx = None"
  shows "fst (processRecording e recording w) = Inr ()
   \<and> transcripts (storage (snd (processRecording e recording w)))
       = transcripts (storage w) @
           [(transcriptIdCounter (storage w),
             \<lparr>t_id = transcriptIdCounter (storage w), t_recordingId = r_id recording,
              t_speaker = ''Speaker'', t_timestamp = 0,
              t_text = (case tx_text tx of
                          None \<Rightarrow> ''Unable to transcribe audio content''
                        | Some whole \<Rightarrow>
                            if whole = [] then ''Unable to transcribe audio content''
                            else whole)\<rparr>)]
   \<and> length (getTranscriptByRecordingId (storage (snd (processRecording e recording w)))
               (r_id recording))
       = length (getTranscriptByRecordingId (storage w) (r_id recording)) + 1"
proof -
  from present obtain r0 where g: "getRecording (storage w) (r_id recording) = Some r0"
    by auto
  note t = processRecordingTry_fallback [OF rf tr seg g]
  have fresh: "transcriptIdCounter (storage w) \<notin> set (map fst (transcripts (storage w)))"
    using inv by (intro mapInv_fresh) (simp add: store_inv_def)
  have res: "fst (processRecording e recording w) = Inr ()"
    by (simp add: processRecording_def t)
  have tr': "transcripts (storage (snd (processRecording e recording w)))
       = transcripts (storage w) @
           [(transcriptIdCounter (storage w),
             \<lparr>t_id = transcriptIdCounter (storage w), t_recordingId = r_id recording,
              t_speaker = ''Speaker'', t_timestamp = 0,
              t_text = orElseString (tx_text tx) ''Unable to transcribe audio content''\<rparr>)]"
    by (simp add: processRecording_def t summaryFanOut_keeps mapSet_fresh [OF fresh])
  have len: "length (getTranscriptByRecordingId (storage (snd (processRecording e recording w)))
               (r_id recording))
       = length (getTranscriptByRecordingId (storage w) (r_id recording)) + 1"
    by (simp add: getTranscriptByRecordingId_def tr' mapValues_def arraySort_ascending)
  from res tr' len show ?thesis
    by (simp add: orElseString_def)
qed

text \<open>Recording 2 of the example store, transcribed as the whole text "good morning".\<close>

theorem processRecording_fallback_segment_witness:
  "store_inv (storage exampleWorld)
   \<and> getRecording (storage exampleWorld) (r_id exampleRecording) \<noteq> None
   \<and> transcripts (storage (snd (processRecording (wholeTextEnv (Some ''good morning''))
        exampleRecording exampleWorld)))
       = transcripts exampleStore @
           [(3, \<lparr>t_id = 3, t_recordingId = 2, t_speaker = ''Speaker'', t_timestamp = 0,
                  t_text = ''good morning''\<rparr>)]"
proof -
  have inv: "store_inv (storage exampleWorld)"
    by (simp add: exampleWorld_def store_inv_exampleStore)
  have present: "getRecording (storage exampleWorld) (r_id exampleRecording) \<noteq> None"
    by (simp add: exampleWorld_def exampleRecording_def exampleStore_def getRecording_def)
  have rf: "readFile (wholeTextEnv (Some ''good morning''))
      (pathResolve ''uploads'' (r_filename exampleRecording)) = Inr ''bytes''"
    by (simp add: wholeTextEnv_def)
  have tr: "transcribe (wholeTextEnv (Some ''good morning'')) ''bytes''
      (pathBasename (pathResolve ''uploads'' (r_filename exampleRecording)))
        = Inr \<lparr>tx_duration = Some 12, tx_segments = None, tx_text = Some ''good morning''\<rparr>"
    by (simp add: wholeTextEnv_def)
  from processRecording_fallback_segment [OF inv present rf tr] inv present
  show ?thesis
    by (simp add: exampleWorld_def exampleRecording_def exampleStore_def)
qed

text \<open>
  The claim as first stated takes the whole text whenever it is there. With the whole
  text present and empty, the segment stored carries the fallback string instead: the
  \<^verbatim>\<open>||\<close> of the source also replaces an empty string.
\<close>

theorem processRecording_fallback_empty_text:
  "tx_segments \<lparr>tx_duration = Some 12, tx_segments = None, tx_text = Some []\<rparr> = None
   \<and> transcribe (wholeTextEnv (Some [])) ''bytes'' ''b.mp3''
       = Inr \<lparr>tx_duration = Some 12, tx_segments = None, tx_text = Some []\<rparr>
   \<and> map t_text (getTranscriptByRecordingId
        (storage (snd (processRecording (wholeTextEnv (Some [])) exampleRecording exampleWorld))) 2)
       = [''Unable to transcribe audio content'']
   \<and> map t_text (getTranscriptByRecordingId
        (storage (snd (processRecording (wholeTextEnv (Some [])) exampleRecording exampleWorld))) 2)
       \<noteq> [[]]"
proof -
  have g: "getRecording (storage exampleWorld) (r_id exampleRecording) = Some exampleRecording"
    by (simp add: exampleWorld_def exampleRecording_def exampleStore_def getRecording_def)
  have rf: "readFile (wholeTextEnv (Some []))
      (pathResolve ''uploads'' (r_filename exampleRecording)) = Inr ''bytes''"
    by (simp add: wholeTextEnv_def)
  have tr: "transcribe (wholeTextEnv (Some [])) ''bytes''
      (pathBasename (pathResolve ''uploads'' (r_filename exampleRecording)))
        = Inr \<lparr>tx_duration = Some 12, tx_segments = None, tx_text = Some []\<rparr>"
    by (simp add: wholeTextEnv_def)
  have "transcripts (storage (snd (processRecording (wholeTextEnv (Some []))
          exampleRecording exampleWorld)))
      = transcripts exampleStore @
          [(3, \<lparr>t_id = 3, t_recordingId = 2, t_speaker = ''Speaker'', t_timestamp = 0,
                 t_text = ''Unable to transcribe audio content''\<rparr>)]"
    by (simp add: processRecording_def processRecordingTry_fallback [OF rf tr _ g]
        summaryFanOut_keeps orElseString_def)
      (simp add: exampleWorld_def exampleStore_def exampleRecording_def)
  then have "map t_text (getTranscriptByRecordingId
        (storage (snd (processRecording (wholeTextEnv (Some [])) exampleRecording exampleWorld))) 2)
       = [''Unable to transcribe audio content'']"
    by (simp add: getTranscriptByRecordingId_def mapValues_def exampleStore_def arraySort_def)
  then show ?thesis
    by (simp add: wholeTextEnv_def)
qed

section \<open>Chat without a transcript\<close>

text \<open>
  Claim C7: for a recording that exists and has no transcript segment, posting a chat
  message (a message that is there: \<open>Some msg\<close> with \<open>msg\<close> not empty) is answered 404
  "Transcript not found", and the state is left as it was: no chat message of either
  role is created and no completion is requested. The state is left as it was also on
  the route's other failure, the 400 "No message provided" of a post without a message,
  which the last conjunct records.
\<close>

theorem chatHandler_no_transcript:
  assumes "getRecording (storage w) i = Some r"
    and "getTranscriptByRecordingId (storage w) i = []"
  shows "snd (chatHandler e i message now1 now2 w) = w
   \<and> (\<forall>msg. message = Some msg \<and> msg \<noteq> [] \<longrightarrow>
         fst (chatHandler e i message now1 now2 w) = (404, MessageBody ''Transcript not found''))
   \<and> (message = None \<or> message = Some [] \<longrightarrow>
         fst (chatHandler e i message now1 now2 w) = (400, MessageBody ''No message provided''))"
  using assms by (auto simp: chatHandler_def Let_def split: option.splits)

text \<open>Recording 2 of the example store exists and has no segment.\<close>

theorem chatHandler_no_transcript_witness:
  "getRecording (storage exampleWorld) 2 = Some exampleRecording
   \<and> getTranscriptByRecordingId (storage exampleWorld) 2 = []
   \<and> chatHandler failingEnv 2 (Some ''what was decided?'') 40 50 exampleWorld
       = ((404, MessageBody ''Transcript not found''), exampleWorld)"
proof -
  have g: "getRecording (storage exampleWorld) 2 = Some exampleRecording"
    by (simp add: exampleWorld_def exampleRecording_def exampleStore_def getRecording_def)
  have n: "getTranscriptByRecordingId (storage exampleWorld) 2 = []"
    by (simp add: exampleWorld_def exampleStore_def getTranscriptByRecordingId_def
        mapValues_def arraySort_def)
  from chatHandler_no_transcript [OF g n, of failingEnv "Some ''what was decided?''" 40 50] g n
  show ?thesis
    by (simp add: prod_eq_iff)
qed

text \<open>
  The route's separate failure for a post without a message, on the same recording: the
  empty string counts as no message, since \<^verbatim>\<open>if (!message)\<close> comes before the look-ups.
\<close>

lemma chatHandler_empty_message:
  "getRecording (storage exampleWorld) 2 = Some exampleRecording
   \<and> getTranscriptByRecordingId (storage exampleWorld) 2 = []
   \<and> chatHandler failingEnv 2 (Some []) 40 50 exampleWorld
       = ((400, MessageBody ''No message provided''), exampleWorld)
   \<and> fst (fst (chatHandler failingEnv 2 (Some []) 40 50 exampleWorld)) \<noteq> 404"
  by (simp add: chatHandler_def exampleWorld_def exampleRecording_def exampleStore_def
      getRecording_def getTranscriptByRecordingId_def mapValues_def arraySort_def)

section \<open>Listing the recordings\<close>

text \<open>
  Claim C8: \<open>getAllRecordings\<close> returns every stored recording (the same multiset as the
  values of the map), ordered by non-increasing creation time.
\<close>

theorem getAllRecordings_newest_first:
  "mset (getAllRecordings s) = mset (mapValues (recordings s))
   \<and> sorted_wrt (\<lambda>a b. r_createdAt b \<le> r_createdAt a) (getAllRecordings s)"
proof -
  have eq: "getAllRecordings s = sort_key (\<lambda>r. - r_createdAt r) (mapValues (recordings s))"
    by (simp add: getAllRecordings_def arraySort_descending)
  have "sorted (map (\<lambda>r. - r_createdAt r) (getAllRecordings s))"
    unfolding eq by (rule sorted_sort_key)
  then have "sorted_wrt (\<lambda>a b. r_createdAt b \<le> r_createdAt a) (getAllRecordings s)"
    by (simp add: sorted_map)
  then show ?thesis by (simp add: eq)
qed

text \<open>The example store holds a recording created at 10 and one created at 20.\<close>

theorem getAllRecordings_newest_first_witness:
  "map r_createdAt (mapValues (recordings exampleStore)) = [10, 20]
   \<and> map r_createdAt (getAllRecordings exampleStore) = [20, 10]
   \<and> mset (getAllRecordings exampleStore) = mset (mapValues (recordings exampleStore))"
proof -
  have "map r_createdAt (mapValues (recordings exampleStore)) = [10, 20]"
    "map r_createdAt (getAllRecordings exampleStore) = [20, 10]"
    by (simp_all add: exampleStore_def getAllRecordings_def mapValues_def arraySort_def)
  with getAllRecordings_newest_first [of exampleStore] show ?thesis by simp
qed

section \<open>Fetching a summary that is not stored\<close>

text \<open>
  Claim C9: in a well-formed store, for a recording that exists and has at least one
  transcript segment, and a type for which \<open>getSummaryByType\<close> finds nothing, the summary
  route invokes generation exactly once: it sends exactly one completion request. With
  the \<open>content\<close> that request returns, the route appends exactly one summary row for the
  pair, answers 200 with the content of that row, and \<open>getSummaryByType\<close> now finds the
  row. The last conjunct records the route's separate 500 failure, when the remote call
  throws: one request still, and the store unchanged.
\<close>

theorem summaryHandler_generates:
  assumes inv: "store_inv (storage w)"
    and rec: "getRecording (storage w) i = Some r"
    and segs: "getTranscriptByRecordingId (storage w) i \<noteq> []"
    and none: "getSummaryByType (storage w) i ty = None"
  shows "completionLog (snd (summaryHandler e i ty w))
       = completionLog w @
           [summaryRequest ty (transcriptTextOf (getTranscriptByRecordingId (storage w) i))]
   \<and> (\<forall>content.
         chatCompletion e (length (completionLog w))
           (summaryRequest ty (transcriptTextOf (getTranscriptByRecordingId (storage w) i)))
             = Inr content \<longrightarrow>
         fst (summaryHandler e i ty w) = (200, ContentBody content)
         \<and> summaries (storage (snd (summaryHandler e i ty w)))
             = summaries (storage w) @
                 [(summaryIdCounter (storage w),
                   \<lparr>s_id = summaryIdCounter (storage w), s_recordingId = i, s_type = ty,
                    s_content = content\<rparr>)]
         \<and> getSummaryByType (storage (snd (summaryHandler e i ty w))) i ty
             = Some \<lparr>s_id = summaryIdCounter (storage w), s_recordingId = i, s_type = ty,
                  s_content = content\<rparr>)
   \<and> (\<forall>err.
         chatCompletion e (length (completionLog w))
           (summaryRequest ty (transcriptTextOf (getTranscriptByRecordingId (storage w) i)))
             = Inl err \<longrightarrow>
         fst (summaryHandler e i ty w) = (500, ErrorBody ''Failed to get summary'' err)
         \<and> storage (snd (summaryHandler e i ty w)) = storage w)"
proof -
  let ?ttext = "transcriptTextOf (getTranscriptByRecordingId (storage w) i)"
  have h: "summaryHandler e i ty w =
      (case generateSummary e i ty ?ttext w of
         (Inl err, w') \<Rightarrow> ((500, ErrorBody ''Failed to get summary'' err), w')
       | (Inr newSummary, w') \<Rightarrow> ((200, ContentBody (s_content newSummary)), w'))"
    using rec segs none by (simp add: summaryHandler_def Let_def)
  have fresh: "summaryIdCounter (storage w) \<notin> set (map fst (summaries (storage w)))"
    using inv by (intro mapInv_fresh) (simp add: store_inv_def)
  have log: "completionLog (snd (summaryHandler e i ty w))
       = completionLog w @ [summaryRequest ty ?ttext]"
  proof (cases "generateSummary e i ty ?ttext w")
    case (Pair res w')
    with generateSummary_keeps(4) [of e i ty ?ttext w] show ?thesis
      by (cases res) (simp_all add: h)
  qed
  have ok: "fst (summaryHandler e i ty w) = (200, ContentBody content)
         \<and> summaries (storage (snd (summaryHandler e i ty w)))
             = summaries (storage w) @
                 [(summaryIdCounter (storage w),
                   \<lparr>s_id = summaryIdCounter (storage w), s_recordingId = i, s_type = ty,
                    s_content = content\<rparr>)]
         \<and> getSummaryByType (storage (snd (summaryHandler e i ty w))) i ty
             = Some \<lparr>s_id = summaryIdCounter (storage w), s_recordingId = i, s_type = ty,
                  s_content = content\<rparr>"
    if c: "chatCompletion e (length (completionLog w)) (summaryRequest ty ?ttext) = Inr content"
    for content
  proof -
    let ?new = "\<lparr>s_id = summaryIdCounter (storage w), s_recordingId = i, s_type = ty,
                    s_content = content\<rparr>"
    have r: "fst (summaryHandler e i ty w) = (200, ContentBody content)"
      by (simp add: h generateSummary_returns [OF c] createSummary_fields)
    have su: "summaries (storage (snd (summaryHandler e i ty w)))
        = summaries (storage w) @ [(summaryIdCounter (storage w), ?new)]"
      by (simp add: h generateSummary_returns [OF c] createSummary_fields mapSet_fresh [OF fresh])
    have "List.find (\<lambda>x. s_recordingId x = i \<and> s_type x = ty)
        (mapValues (summaries (storage w)) @ [?new]) = Some ?new"
      using none by (intro find_append_new) (simp_all add: getSummaryByType_def)
    then have "getSummaryByType (storage (snd (summaryHandler e i ty w))) i ty = Some ?new"
      by (simp add: getSummaryByType_def su mapValues_def)
    with r su show ?thesis by simp
  qed
  have failed: "fst (summaryHandler e i ty w) = (500, ErrorBody ''Failed to get summary'' err)
         \<and> storage (snd (summaryHandler e i ty w)) = storage w"
    if c: "chatCompletion e (length (completionLog w)) (summaryRequest ty ?ttext) = Inl err"
    for err
    by (simp add: h generateSummary_throws [OF c])
  from log ok failed show ?thesis by blast
qed

text \<open>Recording 1 of the example store has segments and no "sales" summary.\<close>

theorem summaryHandler_generates_witness:
  "store_inv (storage exampleWorld)
   \<and> getRecording (storage exampleWorld) 1 \<noteq> None
   \<and> getTranscriptByRecordingId (storage exampleWorld) 1 \<noteq> []
   \<and> getSummaryByType (storage exampleWorld) 1 ''sales'' = None
   \<and> length (completionLog (snd (summaryHandler segmentsEnv 1 ''sales'' exampleWorld))) = 1
   \<and> fst (summaryHandler segmentsEnv 1 ''sales'' exampleWorld) = (200, ContentBody ''generated'')
   \<and> summaries (storage (snd (summaryHandler segmentsEnv 1 ''sales'' exampleWorld)))
       = summaries exampleStore @
           [(2, \<lparr>s_id = 2, s_recordingId = 1, s_type = ''sales'', s_content = ''generated''\<rparr>)]"
proof -
  have inv: "store_inv (storage exampleWorld)"
    by (simp add: exampleWorld_def store_inv_exampleStore)
  have rec: "getRecording (storage exampleWorld) 1
      = Some \<lparr>r_id = 1, r_title = ''one'', r_filename = ''a.mp3'', r_duration = 5,
              r_processed = True, r_transcribed = True, r_createdAt = 10\<rparr>"
    by (simp add: exampleWorld_def exampleStore_def getRecording_def)
  have segs: "getTranscriptByRecordingId (storage exampleWorld) 1 \<noteq> []"
    by (simp add: exampleWorld_def exampleStore_def getTranscriptByRecordingId_def
        mapValues_def arraySort_def)
  have none: "getSummaryByType (storage exampleWorld) 1 ''sales'' = None"
    by (simp add: exampleWorld_def exampleStore_def getSummaryByType_def mapValues_def)
  have c: "chatCompletion segmentsEnv n request = Inr ''generated''" for n request
    by (simp add: segmentsEnv_def)
  from summaryHandler_generates [OF inv rec segs none, of segmentsEnv] c inv rec segs none
  show ?thesis
    by (simp add: exampleWorld_def exampleStore_def)
qed

text \<open>
  The route's separate 500 failure on the same fetch, with a completion service that
  throws: no row is stored.
\<close>

lemma summaryHandler_generation_fails:
  "getRecording (storage exampleWorld) 1 \<noteq> None
   \<and> getTranscriptByRecordingId (storage exampleWorld) 1 \<noteq> []
   \<and> getSummaryByType (storage exampleWorld) 1 ''sales'' = None
   \<and> fst (summaryHandler failingEnv 1 ''sales'' exampleWorld)
       = (500, ErrorBody ''Failed to get summary'' (ServiceError ''completion failed''))
   \<and> summaries (storage (snd (summaryHandler failingEnv 1 ''sales'' exampleWorld)))
       = summaries (storage exampleWorld)
   \<and> getSummaryByType (storage (snd (summaryHandler failingEnv 1 ''sales'' exampleWorld)))
        1 ''sales'' = None"
proof -
  have rec: "getRecording (storage exampleWorld) 1 \<noteq> None"
    by (simp add: exampleWorld_def exampleStore_def getRecording_def)
  have segs: "getTranscriptByRecordingId (storage exampleWorld) 1 \<noteq> []"
    by (simp add: exampleWorld_def exampleStore_def getTranscriptByRecordingId_def
        mapValues_def arraySort_def)
  have none: "getSummaryByType (storage exampleWorld) 1 ''sales'' = None"
    by (simp add: exampleWorld_def exampleStore_def getSummaryByType_def mapValues_def)
  have c: "chatCompletion failingEnv n request = Inl (ServiceError ''completion failed'')"
    for n request
    by (simp add: failingEnv_def)
  have "summaryHandler failingEnv 1 ''sales'' exampleWorld
      = ((500, ErrorBody ''Failed to get summary'' (ServiceError ''completion failed'')),
         exampleWorld\<lparr>completionLog := completionLog exampleWorld @
           [summaryRequest ''sales''
              (transcriptTextOf (getTranscriptByRecordingId (storage exampleWorld) 1))]\<rparr>)"
    using rec segs none
    by (auto simp: summaryHandler_def Let_def generateSummary_throws [OF c])
  with rec segs none show ?thesis by simp
qed

section \<open>Frame of the cascade delete\<close>

text \<open>
  Claim C10: in a well-formed store, \<open>deleteRecording i\<close> returns a store (it has no
  way to fail) in which each collection is the old one without the entries of \<open>i\<close>, in
  the same order and under the same keys, and the counters are unchanged; so every read
  for another id gives what it gave before. In particular the store is unchanged when
  \<open>i\<close> is not in it: when no recording has the id and no segment, summary or chat
  message refers to it, which in a store without dangling references means just that no
  recording has the id.
\<close>

theorem deleteRecording_frame:
  assumes "store_inv s"
  shows "recordings (deleteRecording i s) = filter (\<lambda>e. fst e \<noteq> i) (recordings s)
   \<and> transcripts (deleteRecording i s) = filter (\<lambda>e. t_recordingId (snd e) \<noteq> i) (transcripts s)
   \<and> summaries (deleteRecording i s) = filter (\<lambda>e. s_recordingId (snd e) \<noteq> i) (summaries s)
   \<and> chatMessages (deleteRecording i s) = filter (\<lambda>e. c_recordingId (snd e) \<noteq> i) (chatMessages s)
   \<and> recordingIdCounter (deleteRecording i s) = recordingIdCounter s
   \<and> transcriptIdCounter (deleteRecording i s) = transcriptIdCounter s
   \<and> summaryIdCounter (deleteRecording i s) = summaryIdCounter s
   \<and> chatMessageIdCounter (deleteRecording i s) = chatMessageIdCounter s
   \<and> (\<forall>j. j \<noteq> i \<longrightarrow>
         getRecording (deleteRecording i s) j = getRecording s j
         \<and> getTranscriptByRecordingId (deleteRecording i s) j = getTranscriptByRecordingId s j
         \<and> (\<forall>ty. getSummaryByType (deleteRecording i s) j ty = getSummaryByType s j ty)
         \<and> getChatMessages (deleteRecording i s) j = getChatMessages s j)
   \<and> (i \<notin> fst ` set (recordings s)
        \<and> (\<forall>t \<in> set (mapValues (transcripts s)). t_recordingId t \<noteq> i)
        \<and> (\<forall>x \<in> set (mapValues (summaries s)). s_recordingId x \<noteq> i)
        \<and> (\<forall>c \<in> set (mapValues (chatMessages s)). c_recordingId c \<noteq> i)
        \<longrightarrow> deleteRecording i s = s)
   \<and> (getRecording s i = None \<and> dependentsOwned s \<longrightarrow> deleteRecording i s = s)"
proof -
  let ?s = "deleteRecording i s"
  note f = deleteRecording_filters [OF assms]
  have other: "getRecording ?s j = getRecording s j
      \<and> getTranscriptByRecordingId ?s j = getTranscriptByRecordingId s j
      \<and> (\<forall>ty. getSummaryByType ?s j ty = getSummaryByType s j ty)
      \<and> getChatMessages ?s j = getChatMessages s j" if "j \<noteq> i" for j
  proof -
    have "getRecording ?s j = getRecording s j"
      using that
      by (simp add: getRecording_def deleteRecording_fields mapGet_mapDelete [unfolded mapDelete_def])
    moreover have "getTranscriptByRecordingId ?s j = getTranscriptByRecordingId s j"
      using that by (simp add: getTranscriptByRecordingId_def f filter_owner_other)
    moreover have "getChatMessages ?s j = getChatMessages s j"
      using that by (simp add: getChatMessages_def f filter_owner_other)
    moreover have "getSummaryByType ?s j ty = getSummaryByType s j ty" for ty
    proof -
      have "mapValues (filter (\<lambda>e. s_recordingId (snd e) \<noteq> i) (summaries s))
          = filter (\<lambda>x. s_recordingId x \<noteq> i) (mapValues (summaries s))"
        by (simp add: mapValues_def filter_map comp_def)
      moreover have "List.find (\<lambda>x. s_recordingId x = j \<and> s_type x = ty)
            (filter (\<lambda>x. s_recordingId x \<noteq> i) (mapValues (summaries s)))
          = List.find (\<lambda>x. s_recordingId x = j \<and> s_type x = ty) (mapValues (summaries s))"
        by (rule find_filter_implied) (use that in simp)
      ultimately show ?thesis
        by (simp add: getSummaryByType_def f)
    qed
    ultimately show ?thesis by blast
  qed
  have absent: "deleteRecording i s = s"
    if "i \<notin> fst ` set (recordings s)
        \<and> (\<forall>t \<in> set (mapValues (transcripts s)). t_recordingId t \<noteq> i)
        \<and> (\<forall>x \<in> set (mapValues (summaries s)). s_recordingId x \<noteq> i)
        \<and> (\<forall>c \<in> set (mapValues (chatMessages s)). c_recordingId c \<noteq> i)"
    using that assms by (intro deleteRecording_absent) simp_all
  have owned: "deleteRecording i s = s" if "getRecording s i = None \<and> dependentsOwned s"
  proof (rule absent, intro conjI ballI)
    from that show "i \<notin> fst ` set (recordings s)"
      by (simp add: getRecording_def mapGet_None_key)
  next
    fix t assume "t \<in> set (mapValues (transcripts s))"
    with that show "t_recordingId t \<noteq> i"
      by (auto simp: dependentsOwned_def list_all_iff)
  next
    fix x assume "x \<in> set (mapValues (summaries s))"
    with that show "s_recordingId x \<noteq> i"
      by (auto simp: dependentsOwned_def list_all_iff)
  next
    fix c assume "c \<in> set (mapValues (chatMessages s))"
    with that show "c_recordingId c \<noteq> i"
      by (auto simp: dependentsOwned_def list_all_iff)
  qed
  show ?thesis
    using other absent owned by (simp add: f deleteRecording_fields(1,5-8))
qed

text \<open>
  In the example store, deleting recording 2 leaves recording 1 and its segments as
  they were, and deleting the unused id 7 changes nothing.
\<close>

theorem deleteRecording_frame_witness:
  "store_inv exampleStore
   \<and> getRecording (deleteRecording 2 exampleStore) 1 = getRecording exampleStore 1
   \<and> getRecording exampleStore 1 \<noteq> None
   \<and> getRecording (deleteRecording 2 exampleStore) 2 = None
   \<and> map t_text (getTranscriptByRecordingId (deleteRecording 2 exampleStore) 1) = [''a'', ''b'']
   \<and> getRecording exampleStore 7 = None \<and> dependentsOwned exampleStore
   \<and> deleteRecording 7 exampleStore = exampleStore"
proof -
  have inv: "store_inv exampleStore" by (rule store_inv_exampleStore)
  have own: "dependentsOwned exampleStore"
    by (simp add: dependentsOwned_def exampleStore_def mapValues_def getRecording_def)
  have none: "getRecording exampleStore 7 = None"
    by (simp add: exampleStore_def getRecording_def)
  have tr: "map t_text (getTranscriptByRecordingId exampleStore 1) = [''a'', ''b'']"
    by (simp add: exampleStore_def getTranscriptByRecordingId_def mapValues_def arraySort_def)
  have r1: "getRecording exampleStore 1 \<noteq> None" "getRecording exampleStore 2 \<noteq> None"
    by (simp_all add: exampleStore_def getRecording_def)
  have r2: "getRecording (deleteRecording 2 exampleStore) 2 = None"
    using deleteRecording_frame [OF inv, of 2]
    by (simp add: getRecording_def exampleStore_def)
  from deleteRecording_frame [OF inv, of 2] deleteRecording_frame [OF inv, of 7]
    inv own none tr r1 r2
  show ?thesis by simp
qed

end
